theory Spec2Isabelle
  imports Main
begin

section \<open>The HTTP boundary\<close>

text \<open>
  Go strings are byte sequences: they are modelled as \<open>string\<close>, whose
  characters are bytes. Both programs receive a request that the web framework has already
  parsed: the file parts and the text fields of a multipart form, each in the order of the
  body, and (for the lookup route) the path parameter.
\<close>

record FileHeader =
  Filename :: string
  ContentType :: string
  Content :: string

record Request =
  form_files :: "(string \<times> FileHeader) list"
  form_values :: "(string \<times> string) list"

text \<open>
  A response is a status code and a JSON body. The values that the handlers hand to the
  framework are objects of strings, integers and one nested object; the body of a response
  is the value that a reader of the written bytes obtains (see \<open>JSON\<close> below).
\<close>

datatype json = JString string | JNumber int | JObject "(string \<times> json) list"

record Response =
  status :: nat
  body :: json

definition StatusOK :: nat where "StatusOK = 200"
definition StatusBadRequest :: nat where "StatusBadRequest = 400"
definition StatusNotFound :: nat where "StatusNotFound = 404"
definition StatusInternalServerError :: nat where "StatusInternalServerError = 500"

text \<open>
  \<open>PostForm\<close> returns the first value of a text field, and the empty string when the
  field is absent. \<open>FormFile\<close> returns the first file part of that name, or nothing.
\<close>

definition PostForm :: "Request \<Rightarrow> string \<Rightarrow> string" where
  "PostForm r k = (case map_of (form_values r) k of None \<Rightarrow> [] | Some v \<Rightarrow> v)"

definition FormFile :: "Request \<Rightarrow> string \<Rightarrow> FileHeader option" where
  "FormFile r k = map_of (form_files r) k"

section \<open>Decimal integers: \<open>strconv.Atoi\<close> and the rendering of an id\<close>

text \<open>
  \<open>Atoi\<close> accepts an optional sign followed by one or more decimal digits, and
  rejects a value outside the range of \<open>int\<close> (64 bits).
\<close>

definition is_digit :: "char \<Rightarrow> bool" where
  "is_digit c = (48 \<le> (of_char c :: nat) \<and> (of_char c :: nat) \<le> 57)"

definition digit_val :: "char \<Rightarrow> nat" where
  "digit_val c = (of_char c :: nat) - 48"

fun parse_digits :: "nat \<Rightarrow> string \<Rightarrow> nat option" where
  "parse_digits acc [] = Some acc"
| "parse_digits acc (c # cs) =
     (if is_digit c then parse_digits (acc * 10 + digit_val c) cs else None)"

definition in_int_range :: "int \<Rightarrow> bool" where
  "in_int_range v = (- (2 ^ 63) \<le> v \<and> v < 2 ^ 63)"

definition signed_digits :: "bool \<Rightarrow> string \<Rightarrow> int option" where
  "signed_digits neg ds =
     (if ds = [] then None
      else case parse_digits 0 ds of
        None \<Rightarrow> None
      | Some n \<Rightarrow>
          (let v = (if neg then - int n else int n)
           in if in_int_range v then Some v else None))"

definition Atoi :: "string \<Rightarrow> int option" where
  "Atoi s =
     (case s of
        [] \<Rightarrow> None
      | c # cs \<Rightarrow>
          if c = CHR ''-'' then signed_digits True cs
          else if c = CHR ''+'' then signed_digits False cs
          else signed_digits False s)"

text \<open>The decimal rendering of an integer, as a JSON number or a path segment carries it.\<close>

definition digit_char :: "nat \<Rightarrow> char" where
  "digit_char d = char_of (48 + d)"

fun digits :: "nat \<Rightarrow> string" where
  "digits n = (if n < 10 then [digit_char n] else digits (n div 10) @ [digit_char (n mod 10)])"

declare digits.simps [simp del]

definition Itoa :: "int \<Rightarrow> string" where
  "Itoa i = (if i < 0 then CHR ''-'' # digits (nat (- i)) else digits (nat i))"

section \<open>UTF-8: \<open>utf8.DecodeRuneInString\<close> and \<open>utf8.EncodeRune\<close>\<close>

text \<open>
  The JSON encoder and decoder of the Go library read strings rune by rune. A rune is a
  natural number here, a byte the value of a character. The masks and shifts of the
  library are written as \<open>mod\<close> and multiplication: \<open>s0 & 0x1F\<close> is \<open>byte s0 mod 32\<close>,
  \<open>x << 6\<close> is \<open>x * 64\<close>, and the bit fields that \<open>|\<close> joins do not overlap.
  \<open>first\<close> is the library's table of leading bytes: the length of the sequence and the
  range accepted for its second byte. An invalid byte decodes to \<open>(RuneError, 1)\<close>.
\<close>

definition byte :: "char \<Rightarrow> nat" where
  "byte c = of_char c"

definition RuneError :: nat where
  "RuneError = 0xFFFD"

datatype lead = ASCII | Invalid | Lead nat nat nat

definition first :: "nat \<Rightarrow> lead" where
  "first b =
     (if b < 0x80 then ASCII
      else if b < 0xC2 then Invalid
      else if b < 0xE0 then Lead 2 0x80 0xBF
      else if b = 0xE0 then Lead 3 0xA0 0xBF
      else if b < 0xED then Lead 3 0x80 0xBF
      else if b = 0xED then Lead 3 0x80 0x9F
      else if b < 0xF0 then Lead 3 0x80 0xBF
      else if b = 0xF0 then Lead 4 0x90 0xBF
      else if b < 0xF4 then Lead 4 0x80 0xBF
      else if b = 0xF4 then Lead 4 0x80 0x8F
      else Invalid)"

definition is_cont :: "char \<Rightarrow> bool" where
  "is_cont c = (0x80 \<le> byte c \<and> byte c \<le> 0xBF)"

definition DecodeRune :: "string \<Rightarrow> nat \<times> nat" where
  "DecodeRune s =
     (case s of
        [] \<Rightarrow> (RuneError, 0)
      | s0 # t0 \<Rightarrow>
          (case first (byte s0) of
             ASCII \<Rightarrow> (byte s0, 1)
           | Invalid \<Rightarrow> (RuneError, 1)
           | Lead sz lo hi \<Rightarrow>
               if length s < sz then (RuneError, 1)
               else
                 (case t0 of
                    [] \<Rightarrow> (RuneError, 1)
                  | s1 # t1 \<Rightarrow>
                      if byte s1 < lo \<or> hi < byte s1 then (RuneError, 1)
                      else if sz \<le> 2 then (byte s0 mod 32 * 64 + byte s1 mod 64, 2)
                      else
                        (case t1 of
                           [] \<Rightarrow> (RuneError, 1)
                         | s2 # t2 \<Rightarrow>
                             if \<not> is_cont s2 then (RuneError, 1)
                             else if sz \<le> 3 then
                               (byte s0 mod 16 * 4096 + byte s1 mod 64 * 64 + byte s2 mod 64, 3)
                             else
                               (case t2 of
                                  [] \<Rightarrow> (RuneError, 1)
                                | s3 # t3 \<Rightarrow>
                                    if \<not> is_cont s3 then (RuneError, 1)
                                    else
                                      (byte s0 mod 8 * 262144 + byte s1 mod 64 * 4096 +
                                       byte s2 mod 64 * 64 + byte s3 mod 64, 4))))))"

definition EncodeRune :: "nat \<Rightarrow> string" where
  "EncodeRune r =
     (if r \<le> 0x7F then [char_of r]
      else if r \<le> 0x7FF then [char_of (0xC0 + r div 64), char_of (0x80 + r mod 64)]
      else if r > 0x10FFFF \<or> (0xD800 \<le> r \<and> r \<le> 0xDFFF) then
        [char_of (0xEF::nat), char_of (0xBF::nat), char_of (0xBD::nat)]
      else if r \<le> 0xFFFF then
        [char_of (0xE0 + r div 4096), char_of (0x80 + r div 64 mod 64), char_of (0x80 + r mod 64)]
      else
        [char_of (0xF0 + r div 262144), char_of (0x80 + r div 4096 mod 64),
         char_of (0x80 + r div 64 mod 64), char_of (0x80 + r mod 64)])"

lemma DecodeRune_size_pos: "s \<noteq> [] \<Longrightarrow> 0 < snd (DecodeRune s)"
  by (auto simp: DecodeRune_def split: list.splits lead.splits)

lemma DecodeRune_size_le: "snd (DecodeRune s) \<le> length s"
  by (auto simp: DecodeRune_def split: list.splits lead.splits)

text \<open>The range that \<open>first\<close> accepts for the second byte of a sequence.\<close>

definition accept_ok :: "char \<Rightarrow> char \<Rightarrow> bool" where
  "accept_ok s0 s1 =
     (0x80 \<le> byte s1 \<and> byte s1 \<le> 0xBF \<and>
      (byte s0 = 0xE0 \<longrightarrow> 0xA0 \<le> byte s1) \<and> (byte s0 = 0xED \<longrightarrow> byte s1 \<le> 0x9F) \<and>
      (byte s0 = 0xF0 \<longrightarrow> 0x90 \<le> byte s1) \<and> (byte s0 = 0xF4 \<longrightarrow> byte s1 \<le> 0x8F))"

section \<open>\<open>encoding/json\<close> on the metadata record\<close>

subsection \<open>Writing a string: \<open>appendString\<close> with HTML escaping\<close>

text \<open>
  \<open>json.Marshal\<close> writes a string between double quotes. A byte below \<open>0x80\<close> is
  copied when it is in the library's \<open>htmlSafeSet\<close> and escaped otherwise: the backslash
  and the double quote by a backslash before them; backspace, form feed, newline, return
  and tab by a backslash and their letter; every other one by a backslash, the letter u,
  two zeros and its two hexadecimal digits. An invalid byte is written as the escape of
  \<open>U+FFFD\<close>, the line and paragraph separators \<open>U+2028\<close> and \<open>U+2029\<close> as their
  escapes, and any other multi-byte sequence is copied.
\<close>

definition dquote :: char where "dquote = CHR 0x22"
definition backslash :: char where "backslash = CHR 0x5C"

definition hex :: "nat \<Rightarrow> char" where
  "hex n = (if n < 10 then char_of (48 + n) else char_of (87 + n))"

definition htmlSafeSet :: "nat \<Rightarrow> bool" where
  "htmlSafeSet b = (0x20 \<le> b \<and> b < 0x80 \<and> b \<noteq> 0x22 \<and> b \<noteq> 0x26 \<and> b \<noteq> 0x3C \<and> b \<noteq> 0x3E \<and> b \<noteq> 0x5C)"

definition escape :: "char \<Rightarrow> string" where
  "escape c =
     (if c = backslash \<or> c = dquote then [backslash, c]
      else if byte c = 8 then [backslash, CHR ''b'']
      else if byte c = 12 then [backslash, CHR ''f'']
      else if byte c = 10 then [backslash, CHR ''n'']
      else if byte c = 13 then [backslash, CHR ''r'']
      else if byte c = 9 then [backslash, CHR ''t'']
      else [backslash, CHR ''u'', CHR ''0'', CHR ''0'', hex (byte c div 16), hex (byte c mod 16)])"

lemma DecodeRune_drop_less:
  assumes "DecodeRune (c # cs) = (r, sz)"
  shows "length (drop sz (c # cs)) < Suc (length cs)"
proof -
  have "0 < sz" using DecodeRune_size_pos [of "c # cs"] assms by simp
  then show ?thesis by simp
qed

function appendString_body :: "string \<Rightarrow> string" where
  "appendString_body [] = []"
| "appendString_body (c # cs) =
     (if byte c < 0x80 then
        (if htmlSafeSet (byte c) then [c] else escape c) @ appendString_body cs
      else
        (case DecodeRune (c # cs) of
           (r, sz) \<Rightarrow>
             if r = RuneError \<and> sz = 1 then
               [backslash, CHR ''u'', CHR ''f'', CHR ''f'', CHR ''f'', CHR ''d''] @
               appendString_body (drop sz (c # cs))
             else if r = 0x2028 \<or> r = 0x2029 then
               [backslash, CHR ''u'', CHR ''2'', CHR ''0'', CHR ''2'', hex (r mod 16)] @
               appendString_body (drop sz (c # cs))
             else take sz (c # cs) @ appendString_body (drop sz (c # cs))))"
  by pat_completeness auto
termination
  by (relation "measure length") (auto dest: DecodeRune_drop_less [OF sym])

definition appendString :: "string \<Rightarrow> string" where
  "appendString src = dquote # appendString_body src @ [dquote]"

subsection \<open>Reading a string: the scanner and \<open>unquote\<close>\<close>

text \<open>
  \<open>unquote_body\<close> reads a string literal from the byte after its opening quote to its
  closing quote and returns the decoded string and the rest of the input. It accepts what
  the library's scanner accepts (after a backslash: a double quote, a backslash, a slash,
  one of the letters b, f, n, r, t, or the letter u with four hexadecimal digits; no raw
  byte below \<open>0x20\<close>) and decodes as \<open>unquote\<close> does: a surrogate pair of two such
  escapes gives one rune, a lone surrogate and an invalid byte give \<open>U+FFFD\<close>.
\<close>

definition hexval :: "char \<Rightarrow> nat option" where
  "hexval c =
     (if 48 \<le> byte c \<and> byte c \<le> 57 then Some (byte c - 48)
      else if 97 \<le> byte c \<and> byte c \<le> 102 then Some (byte c - 87)
      else if 65 \<le> byte c \<and> byte c \<le> 70 then Some (byte c - 55)
      else None)"

fun getu4 :: "string \<Rightarrow> nat option" where
  "getu4 (b # u # h1 # h2 # h3 # h4 # rest) =
     (if b = backslash \<and> u = CHR ''u'' then
        (case (hexval h1, hexval h2, hexval h3, hexval h4) of
           (Some d1, Some d2, Some d3, Some d4) \<Rightarrow> Some (((d1 * 16 + d2) * 16 + d3) * 16 + d4)
         | _ \<Rightarrow> None)
      else None)"
| "getu4 _ = None"

definition IsSurrogate :: "nat \<Rightarrow> bool" where
  "IsSurrogate r = (0xD800 \<le> r \<and> r < 0xE000)"

definition utf16_DecodeRune :: "nat \<Rightarrow> nat option \<Rightarrow> nat" where
  "utf16_DecodeRune r1 r2 =
     (case r2 of
        None \<Rightarrow> RuneError
      | Some r2' \<Rightarrow>
          if 0xD800 \<le> r1 \<and> r1 < 0xDC00 \<and> 0xDC00 \<le> r2' \<and> r2' < 0xE000
          then (r1 - 0xD800) * 1024 + (r2' - 0xDC00) + 0x10000
          else RuneError)"

definition simple_escape :: "char \<Rightarrow> char option" where
  "simple_escape e =
     (if e = dquote \<or> e = backslash \<or> e = CHR ''/'' then Some e
      else if e = CHR ''b'' then Some (char_of (8::nat))
      else if e = CHR ''f'' then Some (char_of (12::nat))
      else if e = CHR ''n'' then Some (char_of (10::nat))
      else if e = CHR ''r'' then Some (char_of (13::nat))
      else if e = CHR ''t'' then Some (char_of (9::nat))
      else None)"

definition emit :: "string \<Rightarrow> (string \<times> string) option \<Rightarrow> (string \<times> string) option" where
  "emit p res = (case res of None \<Rightarrow> None | Some (t, rest) \<Rightarrow> Some (p @ t, rest))"

function unquote_body :: "string \<Rightarrow> (string \<times> string) option" where
  "unquote_body [] = None"
| "unquote_body (c # cs) =
     (if c = dquote then Some ([], cs)
      else if c = backslash then
        (case cs of
           [] \<Rightarrow> None
         | e # cs' \<Rightarrow>
             (case simple_escape e of
                Some x \<Rightarrow> emit [x] (unquote_body cs')
              | None \<Rightarrow>
                  if e = CHR ''u'' then
                    (case getu4 (c # cs) of
                       None \<Rightarrow> None
                     | Some rr \<Rightarrow>
                         if IsSurrogate rr then
                           (if utf16_DecodeRune rr (getu4 (drop 6 (c # cs))) \<noteq> RuneError then
                              emit (EncodeRune (utf16_DecodeRune rr (getu4 (drop 6 (c # cs)))))
                                (unquote_body (drop 12 (c # cs)))
                            else emit (EncodeRune RuneError) (unquote_body (drop 6 (c # cs))))
                         else emit (EncodeRune rr) (unquote_body (drop 6 (c # cs))))
                  else None))
      else if byte c < 0x20 then None
      else if byte c < 0x80 then emit [c] (unquote_body cs)
      else
        (case DecodeRune (c # cs) of
           (rr, sz) \<Rightarrow> emit (EncodeRune rr) (unquote_body (drop sz (c # cs)))))"
  by pat_completeness auto
termination
  by (relation "measure length") (auto dest: DecodeRune_drop_less [OF sym])

lemma emit_length:
  "emit p res = Some (v, rest) \<Longrightarrow> \<exists>t. res = Some (t, rest)"
  by (auto simp: emit_def split: option.splits)

lemma unquote_body_step:
  assumes "unquote_body (c # cs) = Some (v, rest)"
  shows "rest = cs \<or> (\<exists>a t. length a \<le> length cs \<and> unquote_body a = Some (t, rest))"
proof -
  have fin: "\<exists>a t. length a \<le> length cs \<and> unquote_body a = Some (t, rest)"
    if "emit p (unquote_body a) = Some (v, rest)" "length a \<le> length cs" for p a
    using emit_length [OF that(1)] that(2) by blast
  have sz: "length (drop n (c # cs)) \<le> length cs" if "0 < n" for n
    using that by simp
  show ?thesis
  proof (cases "c = dquote")
    case True
    with assms show ?thesis by simp
  next
    case nq: False
    show ?thesis
    proof (cases "c = backslash")
      case True
      then obtain e cs' where cs: "cs = e # cs'"
        using assms nq by (cases cs) simp_all
      show ?thesis
      proof (cases "simple_escape e")
        case (Some x)
        then have "emit [x] (unquote_body cs') = Some (v, rest)"
          using assms nq True cs by simp
        from fin [OF this] cs show ?thesis by simp
      next
        case None
        then obtain rr where rr: "e = CHR ''u''" "getu4 (c # cs) = Some rr"
          using assms nq True cs by (simp split: if_splits option.splits)
        show ?thesis
        proof (cases "IsSurrogate rr")
          case False
          then have "emit (EncodeRune rr) (unquote_body (drop 6 (c # cs))) = Some (v, rest)"
            using assms nq True cs None rr by simp
          from fin [OF this sz] show ?thesis by simp
        next
          case sur: True
          show ?thesis
          proof (cases "utf16_DecodeRune rr (getu4 (drop 6 (c # cs))) \<noteq> RuneError")
            case True
            then have "emit (EncodeRune (utf16_DecodeRune rr (getu4 (drop 6 (c # cs)))))
                (unquote_body (drop 12 (c # cs))) = Some (v, rest)"
              using assms nq \<open>c = backslash\<close> cs None rr sur by simp
            from fin [OF this sz] show ?thesis by simp
          next
            case False
            then have "emit (EncodeRune RuneError) (unquote_body (drop 6 (c # cs))) = Some (v, rest)"
              using assms nq \<open>c = backslash\<close> cs None rr sur by simp
            from fin [OF this sz] show ?thesis by simp
          qed
        qed
      qed
    next
      case nb: False
      show ?thesis
      proof (cases "byte c < 0x80")
        case True
        then have "emit [c] (unquote_body cs) = Some (v, rest)"
          using assms nq nb by (simp split: if_splits)
        from fin [OF this] show ?thesis by simp
      next
        case False
        obtain rr n where d: "DecodeRune (c # cs) = (rr, n)" by (cases "DecodeRune (c # cs)")
        then have "emit (EncodeRune rr) (unquote_body (drop n (c # cs))) = Some (v, rest)"
          using assms nq nb False by simp
        moreover have "0 < n" using DecodeRune_size_pos [of "c # cs"] d by simp
        ultimately show ?thesis using fin sz by blast
      qed
    qed
  qed
qed

lemma unquote_body_shorter:
  "unquote_body s = Some (v, rest) \<Longrightarrow> length rest < length s"
proof (induction "length s" arbitrary: s v rule: less_induct)
  case less
  from less.prems obtain c cs where s: "s = c # cs" by (cases s) simp_all
  from unquote_body_step [OF less.prems [unfolded s]]
  consider "rest = cs" | a t where "length a \<le> length cs" "unquote_body a = Some (t, rest)"
    by blast
  then show ?case
  proof cases
    case 1
    then show ?thesis using s by simp
  next
    case 2
    have "length a < length s" using 2(1) s by simp
    from less.hyps [OF this 2(2)] 2(1) s show ?thesis by simp
  qed
qed

subsection \<open>\<open>Marshal\<close> and \<open>Unmarshal\<close> of \<open>AlbumMetadata\<close>\<close>

text \<open>
  \<open>AlbumMetadata\<close> is the struct of three strings with the keys \<open>artist\<close>,
  \<open>title\<close> and \<open>year\<close>. \<open>Marshal\<close> writes the three members in the order of the
  struct; it has no failing case for this type, and returns its document on the right.

  \<open>Unmarshal\<close> is modelled on the objects whose member values are string literals or
  \<open>null\<close>, in any order and with any white space, which covers every document that the
  upload handler stores. A key selects a field when its folded name equals the field's
  (\<open>foldName\<close>: ASCII letters to upper case, and the two runes that fold to ASCII
  letters, \<open>U+017F\<close> and \<open>U+212A\<close>); other members are skipped, and \<open>null\<close> leaves a
  field as it is. A document outside this fragment is reported as an error.
\<close>

record AlbumMetadata =
  md_Artist :: string
  md_Title :: string
  md_Year :: string

definition Marshal :: "AlbumMetadata \<Rightarrow> string + string" where
  "Marshal m =
     Inr (''{'' @ appendString ''artist'' @ '':'' @ appendString (md_Artist m) @
          '','' @ appendString ''title'' @ '':'' @ appendString (md_Title m) @
          '','' @ appendString ''year'' @ '':'' @ appendString (md_Year m) @ ''}'')"

definition isSpace :: "char \<Rightarrow> bool" where
  "isSpace c = (c = CHR '' '' \<or> byte c = 9 \<or> byte c = 13 \<or> byte c = 10)"

definition skip_ws :: "string \<Rightarrow> string" where
  "skip_ws s = dropWhile isSpace s"

definition foldRune :: "nat \<Rightarrow> nat" where
  "foldRune r = (if r = 0x17F then 0x53 else if r = 0x212A then 0x4B else r)"

function foldName :: "string \<Rightarrow> string" where
  "foldName [] = []"
| "foldName (c # cs) =
     (if byte c < 0x80 then
        (if 97 \<le> byte c \<and> byte c \<le> 122 then char_of (byte c - 32) else c) # foldName cs
      else
        (case DecodeRune (c # cs) of
           (r, n) \<Rightarrow> EncodeRune (foldRune r) @ foldName (drop n (c # cs))))"
  by pat_completeness auto
termination
  by (relation "measure length") (auto dest: DecodeRune_drop_less [OF sym])

definition set_field :: "AlbumMetadata \<Rightarrow> string \<Rightarrow> string option \<Rightarrow> AlbumMetadata" where
  "set_field m key v =
     (case v of
        None \<Rightarrow> m
      | Some s \<Rightarrow>
          if foldName key = ''ARTIST'' then m\<lparr>md_Artist := s\<rparr>
          else if foldName key = ''TITLE'' then m\<lparr>md_Title := s\<rparr>
          else if foldName key = ''YEAR'' then m\<lparr>md_Year := s\<rparr>
          else m)"

definition member_value :: "string \<Rightarrow> (string option \<times> string) option" where
  "member_value s =
     (case s of
        [] \<Rightarrow> None
      | c # t \<Rightarrow>
          if c = dquote then
            (case unquote_body t of None \<Rightarrow> None | Some (v, rest) \<Rightarrow> Some (Some v, rest))
          else if take 4 s = ''null'' then Some (None, drop 4 s)
          else None)"

lemma skip_ws_length: "length (skip_ws s) \<le> length s"
  by (simp add: skip_ws_def length_dropWhile_le)

lemma member_value_shorter:
  "member_value s = Some (v, rest) \<Longrightarrow> length rest < length s"
  by (cases s) (auto simp: member_value_def split: if_splits option.splits
      dest!: unquote_body_shorter)

function members :: "AlbumMetadata \<Rightarrow> string \<Rightarrow> (AlbumMetadata \<times> string) option" where
  "members m s =
     (case s of
        [] \<Rightarrow> None
      | c # t \<Rightarrow>
          if c = dquote then
            (case unquote_body t of
               None \<Rightarrow> None
             | Some (key, r1) \<Rightarrow>
                 (case skip_ws r1 of
                    [] \<Rightarrow> None
                  | colon # r2 \<Rightarrow>
                      if colon = CHR '':'' then
                        (case member_value (skip_ws r2) of
                           None \<Rightarrow> None
                         | Some (v, r3) \<Rightarrow>
                             (case skip_ws r3 of
                                [] \<Rightarrow> None
                              | d # r4 \<Rightarrow>
                                  if d = CHR '','' then members (set_field m key v) (skip_ws r4)
                                  else if d = CHR ''}'' then Some (set_field m key v, r4)
                                  else None))
                      else None))
          else None)"
  by pat_completeness auto
termination
proof (relation "measure (\<lambda>(m, s). length s)", goal_cases)
  case 1
  show ?case by simp
next
  case (2 m s c t x2 key r1 colon r2 x2' v r3 d r4)
  have "length r1 < length t" using 2 unquote_body_shorter by metis
  moreover have "length r2 < length (skip_ws r1)" using 2 by simp
  moreover have "length r3 < length (skip_ws r2)" using 2 member_value_shorter by metis
  moreover have "length r4 < length (skip_ws r3)" using 2 by simp
  ultimately have "length (skip_ws r4) < length s"
    using skip_ws_length [of r1] skip_ws_length [of r2] skip_ws_length [of r3]
      skip_ws_length [of r4] 2 by simp
  then show ?case by simp
qed

definition zero_AlbumMetadata :: AlbumMetadata where
  "zero_AlbumMetadata = \<lparr>md_Artist = [], md_Title = [], md_Year = []\<rparr>"

definition Unmarshal :: "string \<Rightarrow> AlbumMetadata \<Rightarrow> string + AlbumMetadata" where
  "Unmarshal data m =
     (case skip_ws data of
        [] \<Rightarrow> Inl ''unexpected end of JSON input''
      | c # t \<Rightarrow>
          if c = CHR ''{'' then
            (case skip_ws t of
               [] \<Rightarrow> Inl ''unexpected end of JSON input''
             | c' # t' \<Rightarrow>
                 (case (if c' = CHR ''}'' then Some (m, t') else members m (c' # t')) of
                    None \<Rightarrow> Inl ''cannot decode the document''
                  | Some (m', rest) \<Rightarrow>
                      if skip_ws rest = [] then Inr m'
                      else Inl ''invalid character after top-level value''))
          else if take 4 (c # t) = ''null'' \<and> skip_ws (drop 4 (c # t)) = [] then Inr m
          else Inl ''cannot decode the document'')"

subsection \<open>What a round trip through the encoder and the decoder gives\<close>

text \<open>
  \<open>ValidString\<close> is \<open>utf8.ValidString\<close>. \<open>coerce_utf8\<close> replaces every
  invalid byte of a string by the encoding of \<open>U+FFFD\<close>.
\<close>

function coerce_utf8 :: "string \<Rightarrow> string" where
  "coerce_utf8 [] = []"
| "coerce_utf8 (c # cs) =
     (case DecodeRune (c # cs) of
        (r, n) \<Rightarrow>
          if r = RuneError \<and> n = 1 then EncodeRune RuneError @ coerce_utf8 (drop n (c # cs))
          else take n (c # cs) @ coerce_utf8 (drop n (c # cs)))"
  by pat_completeness auto
termination
  by (relation "measure length") (auto dest: DecodeRune_drop_less [OF sym])

function ValidString :: "string \<Rightarrow> bool" where
  "ValidString [] = True"
| "ValidString (c # cs) =
     (case DecodeRune (c # cs) of
        (r, n) \<Rightarrow> \<not> (r = RuneError \<and> n = 1) \<and> ValidString (drop n (c # cs)))"
  by pat_completeness auto
termination
  by (relation "measure length") (auto dest: DecodeRune_drop_less [OF sym])

definition coerce_metadata :: "AlbumMetadata \<Rightarrow> AlbumMetadata" where
  "coerce_metadata m =
     \<lparr>md_Artist = coerce_utf8 (md_Artist m), md_Title = coerce_utf8 (md_Title m),
      md_Year = coerce_utf8 (md_Year m)\<rparr>"

definition marshal_members :: "AlbumMetadata \<Rightarrow> string" where
  "marshal_members m =
     appendString ''artist'' @ CHR '':'' # appendString (md_Artist m) @ CHR '','' #
     appendString ''title'' @ CHR '':'' # appendString (md_Title m) @ CHR '','' #
     appendString ''year'' @ CHR '':'' # appendString (md_Year m) @ CHR ''}'' # []"

subsection \<open>Writing a response: \<open>c.JSON\<close>\<close>

text \<open>
  \<open>c.JSON\<close> sets the status and writes its argument with \<open>json.Marshal\<close>, for a
  struct as for a \<open>gin.H\<close> map. Every string of the value is written by
  \<open>appendString\<close>, so that a reader of the body obtains it with each invalid byte
  replaced by \<open>U+FFFD\<close>: \<open>rendered\<close> is the value that is read back. The keys are
  ASCII literals of the programs, which the encoder writes as they are; integers are
  written in decimal.
\<close>

primrec rendered :: "json \<Rightarrow> json" where
  "rendered (JString s) = JString (coerce_utf8 s)"
| "rendered (JNumber n) = JNumber n"
| "rendered (JObject kvs) = JObject (map (map_prod id rendered) kvs)"

definition JSON :: "nat \<Rightarrow> json \<Rightarrow> Response" where
  "JSON code obj = \<lparr>status = code, body = rendered obj\<rparr>"

section \<open>Paths: \<open>filepath.Ext\<close>, \<open>filepath.Clean\<close> and \<open>filepath.Join\<close>\<close>

text \<open>
  \<open>Ext\<close> is the suffix that begins at the last dot of the last path element, empty
  when that element has no dot. \<open>Clean\<close> works element by element as the library's loop
  does: empty elements and \<open>.\<close> are dropped, \<open>..\<close> removes the element before it or,
  at the start of a relative path, is kept. \<open>Join\<close> joins its elements from the first
  non-empty one with slashes and cleans the result. The separator is \<open>/\<close>.
\<close>

fun ext_scan :: "string \<Rightarrow> string \<Rightarrow> string" where
  "ext_scan [] suffix = []"
| "ext_scan (c # rev_rest) suffix =
     (if c = CHR ''/'' then []
      else if c = CHR ''.'' then c # suffix
      else ext_scan rev_rest (c # suffix))"

definition Ext :: "string \<Rightarrow> string" where
  "Ext path = ext_scan (rev path) []"

fun split_slash :: "string \<Rightarrow> string list" where
  "split_slash [] = [[]]"
| "split_slash (c # cs) =
     (if c = CHR ''/'' then [] # split_slash cs
      else case split_slash cs of [] \<Rightarrow> [[c]] | e # es \<Rightarrow> (c # e) # es)"

fun clean_elems :: "bool \<Rightarrow> string list \<Rightarrow> string list \<Rightarrow> string list" where
  "clean_elems rooted out [] = rev out"
| "clean_elems rooted out (e # es) =
     (if e = [] \<or> e = ''.'' then clean_elems rooted out es
      else if e = ''..'' then
        (case out of
           [] \<Rightarrow> if rooted then clean_elems rooted out es else clean_elems rooted [''..''] es
         | x # out' \<Rightarrow>
             if x = ''..'' then clean_elems rooted (''..'' # out) es
             else clean_elems rooted out' es)
      else clean_elems rooted (e # out) es)"

fun join_slash :: "string list \<Rightarrow> string" where
  "join_slash [] = []"
| "join_slash [e] = e"
| "join_slash (e # es) = e @ CHR ''/'' # join_slash es"

definition Clean :: "string \<Rightarrow> string" where
  "Clean path =
     (case path of
        [] \<Rightarrow> ''.''
      | c # cs \<Rightarrow>
          (let rooted = (c = CHR ''/'');
               out = join_slash (clean_elems rooted [] (split_slash path))
           in if rooted then CHR ''/'' # out else if out = [] then ''.'' else out))"

definition Join :: "string list \<Rightarrow> string" where
  "Join elem =
     (case dropWhile (\<lambda>e. e = []) elem of
        [] \<Rightarrow> []
      | es \<Rightarrow> Clean (join_slash es))"

section \<open>The album table\<close>

text \<open>
  Both programs keep one table behind the database driver. The remote variant declares
  \<^verbatim>\<open>id INT AUTO_INCREMENT PRIMARY KEY, image_url VARCHAR(255), artist VARCHAR(255),
  title VARCHAR(255), year VARCHAR(10)\<close>, the local one
  \<^verbatim>\<open>id INT AUTO_INCREMENT PRIMARY KEY, image_url VARCHAR(255), metadata JSON\<close>.
  The engine is outside the repository; the model keeps what the declarations fix:
  \<^item> the key is drawn from a counter that starts at 1 and stops at \<open>2^31 - 1\<close>;
  \<^item> a value longer than its \<open>VARCHAR\<close> column is refused when the engine runs in
    strict mode and cut to the column's width otherwise; the columns are taken to have a
    single-byte character set, so that a width counts bytes and every byte string within
    the width is stored as it is;
  \<^item> the \<open>JSON\<close> column gives back the document that was stored (the engine's own
    rendering of the document's text is not modelled);
  \<^item> every call may fail for a reason of the engine's own (a lost connection): the
    argument \<open>fault\<close> carries the error text of such a failure.
  Each call is recorded in \<open>calls\<close>, whether it succeeds or not.
\<close>

datatype DbCall = ExecInsert | QueryRow

record 'r Database =
  rows :: "'r list"
  auto_increment :: int
  strict_mode :: bool
  calls :: "DbCall list"

datatype 'a scan = ErrNoRows | ScanError string | Scanned 'a

definition varchar :: "bool \<Rightarrow> nat \<Rightarrow> string \<Rightarrow> string option" where
  "varchar strict n v =
     (if length v \<le> n then Some v else if strict then None else Some (take n v))"

definition data_too_long :: string where
  "data_too_long = ''Error 1406: Data too long for column''"

definition out_of_ids :: string where
  "out_of_ids = ''Error 1062: Duplicate entry for key PRIMARY''"

text \<open>
  What the surroundings answer during one request: the identifier that \<open>uuid.New\<close>
  draws, and the error, if any, of each call that leaves the program. \<open>copy_written\<close>
  is the number of bytes that reached the file when the copy fails.
\<close>

record Env =
  new_uuid :: string
  open_err :: "string option"
  temp_file_err :: "string option"
  mkdir_err :: "string option"
  reopen_err :: "string option"
  create_err :: "string option"
  copy_err :: "string option"
  copy_written :: nat
  put_object_err :: "string option"
  exec_err :: "string option"
  query_err :: "string option"

section \<open>The remote variant: object store and discrete columns\<close>

subsection \<open>The repository\<close>

record AlbumRow =
  row_id :: int
  row_image_url :: string
  row_artist :: string
  row_title :: string
  row_year :: string

definition insert_album ::
  "string option \<Rightarrow> string \<Rightarrow> string \<Rightarrow> string \<Rightarrow> string \<Rightarrow> AlbumRow Database \<Rightarrow>
   (string + int) \<times> AlbumRow Database" where
  "insert_album fault url a t y d =
     (let d1 = d\<lparr>calls := calls d @ [ExecInsert]\<rparr> in
      case fault of
        Some e \<Rightarrow> (Inl e, d1)
      | None \<Rightarrow>
          (case (varchar (strict_mode d) 255 url, varchar (strict_mode d) 255 a,
                 varchar (strict_mode d) 255 t, varchar (strict_mode d) 10 y) of
             (Some url', Some a', Some t', Some y') \<Rightarrow>
               if auto_increment d > 2147483647 then (Inl out_of_ids, d1)
               else
                 (Inr (auto_increment d),
                  d1\<lparr>rows := rows d @
                         [\<lparr>row_id = auto_increment d, row_image_url = url',
                           row_artist = a', row_title = t', row_year = y'\<rparr>],
                      auto_increment := auto_increment d + 1\<rparr>)
           | _ \<Rightarrow> (Inl data_too_long, d1)))"

definition select_album ::
  "string option \<Rightarrow> int \<Rightarrow> AlbumRow Database \<Rightarrow> AlbumRow scan \<times> AlbumRow Database" where
  "select_album fault k d =
     (let d1 = d\<lparr>calls := calls d @ [QueryRow]\<rparr> in
      case fault of
        Some e \<Rightarrow> (ScanError e, d1)
      | None \<Rightarrow>
          (case find (\<lambda>r. row_id r = k) (rows d) of
             None \<Rightarrow> (ErrNoRows, d1)
           | Some r \<Rightarrow> (Scanned r, d1)))"

subsection \<open>The object store\<close>

record S3Object =
  Body :: string
  ObjectContentType :: string
  ACL :: string

record World =
  db :: "AlbumRow Database"
  bucket_objects :: "string \<times> string \<Rightarrow> S3Object option"

definition object_key :: "string \<Rightarrow> string \<Rightarrow> string" where
  "object_key u filename = ''images/'' @ u @ Ext filename"

definition object_url :: "string \<Rightarrow> string \<Rightarrow> string" where
  "object_url bucket key = ''https://'' @ bucket @ ''.s3.amazonaws.com/'' @ key"

text \<open>
  \<open>uploadToS3\<close> copies the upload to a temporary file, which it removes on return, and
  puts that file into the bucket. The temporary file leaves no trace in the state, so
  only the failures of its creation and of the copy are kept.
\<close>

definition uploadToS3 ::
  "string \<Rightarrow> Env \<Rightarrow> FileHeader \<Rightarrow> World \<Rightarrow> (string + string \<times> int) \<times> World" where
  "uploadToS3 bucket env header w =
     (let key = object_key (new_uuid env) (Filename header) in
      case temp_file_err env of
        Some e \<Rightarrow> (Inl e, w)
      | None \<Rightarrow>
          (case copy_err env of
             Some e \<Rightarrow> (Inl e, w)
           | None \<Rightarrow>
               (let fileSize = int (length (Content header)) in
                case put_object_err env of
                  Some e \<Rightarrow> (Inl e, w)
                | None \<Rightarrow>
                    (Inr (object_url bucket key, fileSize),
                     w\<lparr>bucket_objects := (bucket_objects w)((bucket, key) \<mapsto>
                          \<lparr>Body = Content header, ObjectContentType = ContentType header,
                            ACL = ''public-read''\<rparr>)\<rparr>))))"

subsection \<open>The handlers\<close>

definition error_body :: "string \<Rightarrow> json" where
  "error_body msg = JObject [(''error'', JString msg)]"

definition newAlbum :: "string \<Rightarrow> Env \<Rightarrow> Request \<Rightarrow> World \<Rightarrow> Response \<times> World" where
  "newAlbum bucket env req w =
     (case (if open_err env = None then FormFile req ''image'' else None) of
        None \<Rightarrow> (JSON StatusBadRequest (error_body ''Invalid image file''), w)
      | Some header \<Rightarrow>
          (let artist = PostForm req ''profile[artist]'';
               title = PostForm req ''profile[title]'';
               year = PostForm req ''profile[year]''
           in case uploadToS3 bucket env header w of
                (Inl e, w1) \<Rightarrow>
                  (JSON StatusInternalServerError (error_body ''Failed to upload image to S3''), w1)
              | (Inr (imageURL, imageSize), w1) \<Rightarrow>
                  (case insert_album (exec_err env) imageURL artist title year (db w1) of
                     (Inl e, d) \<Rightarrow> (JSON StatusInternalServerError (error_body e), w1\<lparr>db := d\<rparr>)
                   | (Inr newID, d) \<Rightarrow>
                       (JSON StatusOK
                          (JObject [(''albumID'', JNumber newID), (''imageSize'', JNumber imageSize)]),
                        w1\<lparr>db := d\<rparr>))))"

record Album =
  ID :: int
  ImageURL :: string
  Artist :: string
  Title :: string
  Year :: string
  ImageSize :: int

definition zero_Album :: Album where
  "zero_Album = \<lparr>ID = 0, ImageURL = [], Artist = [], Title = [], Year = [], ImageSize = 0\<rparr>"

definition album_json :: "Album \<Rightarrow> json" where
  "album_json a =
     JObject [(''albumID'', JNumber (ID a)), (''image_url'', JString (ImageURL a)),
              (''artist'', JString (Artist a)), (''title'', JString (Title a)),
              (''year'', JString (Year a)), (''imageSize'', JNumber (ImageSize a))]"

definition getAlbumByKey :: "Env \<Rightarrow> string \<Rightarrow> World \<Rightarrow> Response \<times> World" where
  "getAlbumByKey env idStr w =
     (case Atoi idStr of
        None \<Rightarrow> (JSON StatusBadRequest (error_body ''Invalid album ID''), w)
      | Some k \<Rightarrow>
          (case select_album (query_err env) k (db w) of
             (ErrNoRows, d) \<Rightarrow>
               (JSON StatusNotFound (JObject [(''msg'', JString ''Key not found'')]), w\<lparr>db := d\<rparr>)
           | (ScanError e, d) \<Rightarrow>
               (JSON StatusInternalServerError (error_body e), w\<lparr>db := d\<rparr>)
           | (Scanned r, d) \<Rightarrow>
               (let album = zero_Album\<lparr>ID := row_id r, ImageURL := row_image_url r,
                                        Artist := row_artist r, Title := row_title r,
                                        Year := row_year r\<rparr>
                in (JSON StatusOK (album_json album), w\<lparr>db := d\<rparr>))))"

section \<open>The local variant: files on disk and a serialized metadata column\<close>

subsection \<open>The repository\<close>

record InfoRow =
  info_id :: int
  info_image_url :: string
  info_metadata :: string

definition insert_info ::
  "string option \<Rightarrow> string \<Rightarrow> string \<Rightarrow> InfoRow Database \<Rightarrow>
   (string + int) \<times> InfoRow Database" where
  "insert_info fault path doc d =
     (let d1 = d\<lparr>calls := calls d @ [ExecInsert]\<rparr> in
      case fault of
        Some e \<Rightarrow> (Inl e, d1)
      | None \<Rightarrow>
          (case varchar (strict_mode d) 255 path of
             None \<Rightarrow> (Inl data_too_long, d1)
           | Some path' \<Rightarrow>
               if auto_increment d > 2147483647 then (Inl out_of_ids, d1)
               else
                 (Inr (auto_increment d),
                  d1\<lparr>rows := rows d @
                         [\<lparr>info_id = auto_increment d, info_image_url = path',
                           info_metadata = doc\<rparr>],
                      auto_increment := auto_increment d + 1\<rparr>)))"

text \<open>
  The lookup of the local variant hands the path parameter to the engine as a string, and
  the engine compares it with the integer key by a conversion of its own. The comparison
  is a parameter \<open>cmp\<close> of the model; where a property depends on it, the property says
  what it assumes of it.
\<close>

definition select_info ::
  "(string \<Rightarrow> int \<Rightarrow> bool) \<Rightarrow> string option \<Rightarrow> string \<Rightarrow> InfoRow Database \<Rightarrow>
   InfoRow scan \<times> InfoRow Database" where
  "select_info cmp fault albumID d =
     (let d1 = d\<lparr>calls := calls d @ [QueryRow]\<rparr> in
      case fault of
        Some e \<Rightarrow> (ScanError e, d1)
      | None \<Rightarrow>
          (case find (\<lambda>r. cmp albumID (info_id r)) (rows d) of
             None \<Rightarrow> (ErrNoRows, d1)
           | Some r \<Rightarrow> (Scanned r, d1)))"

subsection \<open>The image directory\<close>

record FS =
  dirs :: "string set"
  fs_files :: "string \<Rightarrow> string option"

record LocalWorld =
  ldb :: "InfoRow Database"
  fs :: FS

definition imageDir :: string where
  "imageDir = ''./images''"

definition write_file :: "string \<Rightarrow> string \<Rightarrow> FS \<Rightarrow> FS" where
  "write_file path bytes f = f\<lparr>fs_files := (fs_files f)(path \<mapsto> bytes)\<rparr>"

definition saveImageLocally :: "Env \<Rightarrow> FileHeader \<Rightarrow> FS \<Rightarrow> (string + string) \<times> FS" where
  "saveImageLocally env imageFile f =
     (case mkdir_err env of
        Some e \<Rightarrow> (Inl (''failed to create image directory: '' @ e), f)
      | None \<Rightarrow>
          (let f1 = f\<lparr>dirs := insert imageDir (dirs f)\<rparr>;
               filePath = Join [imageDir, Filename imageFile]
           in case reopen_err env of
                Some e \<Rightarrow> (Inl (''failed to open uploaded image: '' @ e), f1)
              | None \<Rightarrow>
                  (case create_err env of
                     Some e \<Rightarrow> (Inl (''failed to save image: '' @ e), f1)
                   | None \<Rightarrow>
                       (case copy_err env of
                          Some e \<Rightarrow>
                            (Inl (''failed to write image file: '' @ e),
                             write_file filePath
                               (take (copy_written env) (Content imageFile)) f1)
                        | None \<Rightarrow>
                            (Inr filePath, write_file filePath (Content imageFile) f1)))))"

subsection \<open>The handlers\<close>

text \<open>
  The handlers of the local variant are anonymous functions registered for
  \<^verbatim>\<open>POST /albums\<close> and \<^verbatim>\<open>GET /albums/:albumID\<close>; they are named
  \<open>postAlbums\<close> and \<open>getAlbum\<close> here.
\<close>

definition postAlbums :: "Env \<Rightarrow> Request \<Rightarrow> LocalWorld \<Rightarrow> Response \<times> LocalWorld" where
  "postAlbums env req w =
     (case (if open_err env = None then FormFile req ''image'' else None) of
        None \<Rightarrow> (JSON StatusBadRequest (error_body ''Invalid image file''), w)
      | Some imageFile \<Rightarrow>
          (let artist = PostForm req ''artist'';
               title = PostForm req ''title'';
               year = PostForm req ''year''
           in case saveImageLocally env imageFile (fs w) of
                (Inl e, f) \<Rightarrow> (JSON StatusInternalServerError (error_body e), w\<lparr>fs := f\<rparr>)
              | (Inr imagePath, f) \<Rightarrow>
                  (case Marshal \<lparr>md_Artist = artist, md_Title = title, md_Year = year\<rparr> of
                     Inl e \<Rightarrow>
                       (JSON StatusInternalServerError (error_body ''Failed to encode metadata''),
                        w\<lparr>fs := f\<rparr>)
                   | Inr metadataJSON \<Rightarrow>
                       (case insert_info (exec_err env) imagePath metadataJSON (ldb w) of
                          (Inl e, d) \<Rightarrow>
                            (JSON StatusInternalServerError (error_body e), w\<lparr>fs := f, ldb := d\<rparr>)
                        | (Inr newID, d) \<Rightarrow>
                            (JSON StatusOK
                               (JObject [(''albumID'', JNumber newID),
                                         (''imagePath'', JString imagePath)]),
                             w\<lparr>fs := f, ldb := d\<rparr>)))))"

record AlbumInfo =
  AlbumID :: int
  info_ImageURL :: string
  Metadata :: AlbumMetadata

definition metadata_json :: "AlbumMetadata \<Rightarrow> json" where
  "metadata_json m =
     JObject [(''artist'', JString (md_Artist m)), (''title'', JString (md_Title m)),
              (''year'', JString (md_Year m))]"

definition info_json :: "AlbumInfo \<Rightarrow> json" where
  "info_json a =
     JObject [(''albumID'', JNumber (AlbumID a)), (''image_url'', JString (info_ImageURL a)),
              (''metadata'', metadata_json (Metadata a))]"

definition getAlbum ::
  "(string \<Rightarrow> int \<Rightarrow> bool) \<Rightarrow> Env \<Rightarrow> string \<Rightarrow> LocalWorld \<Rightarrow> Response \<times> LocalWorld" where
  "getAlbum cmp env albumID w =
     (case select_info cmp (query_err env) albumID (ldb w) of
        (ErrNoRows, d) \<Rightarrow>
          (JSON StatusNotFound (error_body ''Album not found''), w\<lparr>ldb := d\<rparr>)
      | (ScanError e, d) \<Rightarrow>
          (JSON StatusInternalServerError (error_body e), w\<lparr>ldb := d\<rparr>)
      | (Scanned r, d) \<Rightarrow>
          (case Unmarshal (info_metadata r) zero_AlbumMetadata of
             Inl e \<Rightarrow>
               (JSON StatusInternalServerError (error_body ''Failed to decode metadata''),
                w\<lparr>ldb := d\<rparr>)
           | Inr md \<Rightarrow>
               (JSON StatusOK
                  (info_json \<lparr>AlbumID = info_id r, info_ImageURL = info_image_url r,
                              Metadata = md\<rparr>),
                w\<lparr>ldb := d\<rparr>)))"

section \<open>Notions used by the properties\<close>

text \<open>Reading a member of a response body.\<close>

definition member :: "json \<Rightarrow> string \<Rightarrow> json option" where
  "member j k = (case j of JObject kvs \<Rightarrow> map_of kvs k | _ \<Rightarrow> None)"

text \<open>
  The keys of a table are sound when the counter is positive and every row was given a
  key below it: the state of a table that only the insert statement has written.
\<close>

definition keys_ok :: "('r \<Rightarrow> int) \<Rightarrow> 'r Database \<Rightarrow> bool" where
  "keys_ok key d =
     (1 \<le> auto_increment d \<and> list_all (\<lambda>r. 1 \<le> key r \<and> key r < auto_increment d) (rows d))"

text \<open>The syntax of a decimal integer: an optional sign and at least one digit.\<close>

definition decimal_syntax :: "string \<Rightarrow> bool" where
  "decimal_syntax s =
     (case s of
        [] \<Rightarrow> False
      | c # cs \<Rightarrow>
          if c = CHR ''-'' \<or> c = CHR ''+'' then cs \<noteq> [] \<and> list_all is_digit cs
          else list_all is_digit s)"

text \<open>
  A file name with no directory part, as the multipart reader delivers it (it passes the
  name through \<open>filepath.Base\<close>), other than the names of the directory itself and of its
  parent, which cannot be created as files.
\<close>

definition plain_name :: "string \<Rightarrow> bool" where
  "plain_name f = (f \<noteq> [] \<and> f \<noteq> ''.'' \<and> f \<noteq> ''..'' \<and> CHR ''/'' \<notin> set f)"

text \<open>
  A comparison of the engine that matches a key string with the integer it denotes in
  decimal: what the properties of the local variant assume of the engine where they
  depend on it, and the comparison of the concrete runs below.
\<close>

definition decimal_cmp :: "(string \<Rightarrow> int \<Rightarrow> bool) \<Rightarrow> bool" where
  "decimal_cmp cmp = (\<forall>k j. in_int_range k \<longrightarrow> cmp (Itoa k) j = (j = k))"

definition atoi_cmp :: "string \<Rightarrow> int \<Rightarrow> bool" where
  "atoi_cmp s k = (Atoi s = Some k)"

text \<open>Every stored metadata column decodes.\<close>

definition columns_decode :: "InfoRow Database \<Rightarrow> bool" where
  "columns_decode d =
     list_all (\<lambda>r. case Unmarshal (info_metadata r) zero_AlbumMetadata of
                      Inl e \<Rightarrow> False | Inr md \<Rightarrow> True) (rows d)"

section \<open>Concrete worlds and requests\<close>

definition empty_db :: "bool \<Rightarrow> 'r Database" where
  "empty_db strict = \<lparr>rows = [], auto_increment = 1, strict_mode = strict, calls = []\<rparr>"

definition empty_world :: "bool \<Rightarrow> World" where
  "empty_world strict = \<lparr>db = empty_db strict, bucket_objects = Map.empty\<rparr>"

definition empty_local :: "bool \<Rightarrow> LocalWorld" where
  "empty_local strict = \<lparr>ldb = empty_db strict, fs = \<lparr>dirs = {}, fs_files = Map.empty\<rparr>\<rparr>"

definition quiet :: Env where
  "quiet = \<lparr>new_uuid = ''123e4567-e89b-12d3-a456-426614174000'', open_err = None,
             temp_file_err = None, mkdir_err = None, reopen_err = None, create_err = None,
             copy_err = None, copy_written = 0, put_object_err = None,
             exec_err = None, query_err = None\<rparr>"

definition cover :: FileHeader where
  "cover = \<lparr>Filename = ''cover.jpg'', ContentType = ''image/jpeg'', Content = ''JFIF!''\<rparr>"

definition profile_request :: Request where
  "profile_request =
     \<lparr>form_files = [(''image'', cover)],
      form_values = [(''profile[artist]'', ''Boards''), (''profile[title]'', ''Music Has...''),
                     (''profile[year]'', ''1998'')]\<rparr>"

definition plain_request :: Request where
  "plain_request =
     \<lparr>form_files = [(''image'', cover)],
      form_values = [(''artist'', ''Boards''), (''title'', ''Music Has...''),
                     (''year'', ''1998'')]\<rparr>"

definition long_year_request :: Request where
  "long_year_request =
     \<lparr>form_files = [(''image'', cover)],
      form_values = [(''profile[artist]'', ''Boards''), (''profile[title]'', ''Music Has...''),
                     (''profile[year]'', ''12345678901'')]\<rparr>"

definition invalid_utf8_request :: Request where
  "invalid_utf8_request =
     \<lparr>form_files = [(''image'', cover)],
      form_values = [(''artist'', [CHR 0xFF]), (''title'', ''Music Has...''),
                     (''year'', ''1998'')]\<rparr>"

definition invalid_utf8_profile_request :: Request where
  "invalid_utf8_profile_request =
     \<lparr>form_files = [(''image'', cover)],
      form_values = [(''profile[artist]'', [CHR 0xFF]), (''profile[title]'', ''Music Has...''),
                     (''profile[year]'', ''1998'')]\<rparr>"

definition s3_down :: Env where
  "s3_down = quiet\<lparr>put_object_err := Some ''RequestTimeout''\<rparr>"

definition disk_full :: Env where
  "disk_full = quiet\<lparr>copy_err := Some ''no space left on device'', copy_written := 2\<rparr>"

definition after_upload :: World where
  "after_upload = snd (newAlbum ''b'' quiet profile_request (empty_world True))"

definition after_local_upload :: LocalWorld where
  "after_local_upload = snd (postAlbums quiet plain_request (empty_local True))"

section \<open>Arithmetic of the bit fields\<close>

lemma mod_range:
  fixes b :: nat
  assumes "k * m \<le> b" "b < k * m + m"
  shows "b = k * m + b mod m"
proof -
  define x where "x = b - k * m"
  have b: "b = x + k * m" and x: "x < m" using assms by (simp_all add: x_def)
  show ?thesis unfolding b using x by simp
qed

lemma cont_split:
  fixes b :: nat
  assumes "0x80 \<le> b" "b \<le> 0xBF"
  shows "b = 0x80 + b mod 64"
  using mod_range [of 2 64 b] assms by simp

lemma pack2:
  fixes x y :: nat
  assumes "y < 64"
  shows "(x * 64 + y) div 64 = x" "(x * 64 + y) mod 64 = y"
  using assms by simp_all

lemma pack3:
  fixes x y z :: nat
  assumes "y < 64" "z < 64"
  shows "(x * 4096 + y * 64 + z) div 4096 = x"
    and "(x * 4096 + y * 64 + z) div 64 mod 64 = y"
    and "(x * 4096 + y * 64 + z) mod 64 = z"
proof -
  have e: "x * 4096 + y * 64 + z = (x * 64 + y) * 64 + z" by simp
  have d: "(x * 4096 + y * 64 + z) div 64 = x * 64 + y"
    unfolding e by (rule pack2(1) [OF assms(2)])
  show "(x * 4096 + y * 64 + z) div 64 mod 64 = y"
    unfolding d by (rule pack2(2) [OF assms(1)])
  show "(x * 4096 + y * 64 + z) mod 64 = z"
    unfolding e by (rule pack2(2) [OF assms(2)])
  have "y * 64 + z < 4096" using assms by simp
  then show "(x * 4096 + y * 64 + z) div 4096 = x"
    by (simp add: add.assoc)
qed

lemma pack4:
  fixes w x y z :: nat
  assumes "x < 64" "y < 64" "z < 64"
  shows "(w * 262144 + x * 4096 + y * 64 + z) div 262144 = w"
    and "(w * 262144 + x * 4096 + y * 64 + z) div 4096 mod 64 = x"
    and "(w * 262144 + x * 4096 + y * 64 + z) div 64 mod 64 = y"
    and "(w * 262144 + x * 4096 + y * 64 + z) mod 64 = z"
proof -
  let ?r = "w * 262144 + x * 4096 + y * 64 + z"
  have e1: "?r = ((w * 64 + x) * 64 + y) * 64 + z" by simp
  have e2: "?r = (w * 64 + x) * 4096 + (y * 64 + z)" by simp
  have e3: "?r = w * 262144 + (x * 4096 + y * 64 + z)" by simp
  have s2: "y * 64 + z < 4096" using assms by simp
  have s3: "x * 4096 + y * 64 + z < 262144" using assms by simp
  have d64: "?r div 64 = (w * 64 + x) * 64 + y"
    unfolding e1 by (rule pack2(1) [OF assms(3)])
  have d4096: "?r div 4096 = w * 64 + x"
    unfolding e2 using s2 by simp
  show "?r div 262144 = w" unfolding e3 using s3 by simp
  show "?r div 4096 mod 64 = x" unfolding d4096 by (rule pack2(2) [OF assms(1)])
  show "?r div 64 mod 64 = y" unfolding d64 by (rule pack2(2) [OF assms(2)])
  show "?r mod 64 = z" unfolding e1 by (rule pack2(2) [OF assms(3)])
qed

section \<open>Decoding a valid sequence and encoding it again\<close>

lemma char_of_byte: "char_of (byte c) = c"
  by (simp add: byte_def)

lemma byte_lt_256: "byte c < 256"
  by (simp add: byte_def)

lemma encode2:
  assumes "0xC2 \<le> byte s0" "byte s0 < 0xE0" "0x80 \<le> byte s1" "byte s1 \<le> 0xBF"
  shows "EncodeRune (byte s0 mod 32 * 64 + byte s1 mod 64) = [s0, s1]"
proof -
  define x where "x = byte s0 mod 32"
  define y where "y = byte s1 mod 64"
  have b0: "byte s0 = 192 + x" using mod_range [of 6 32 "byte s0"] assms by (simp add: x_def)
  have b1: "byte s1 = 128 + y" using cont_split [of "byte s1"] assms by (simp add: y_def)
  have x: "2 \<le> x" "x < 32" using b0 assms by simp_all
  have y: "y < 64" by (simp add: y_def)
  have lo: "\<not> x * 64 + y \<le> 0x7F" using x by simp
  have hi: "x * 64 + y \<le> 0x7FF" using x y by simp
  have "EncodeRune (x * 64 + y) = [char_of (192 + x), char_of (128 + y)]"
    using lo hi pack2 [OF y, of x] by (simp add: EncodeRune_def)
  then show ?thesis
    unfolding x_def [symmetric] y_def [symmetric] using b0 b1 char_of_byte by metis
qed

lemma encode3:
  assumes "0xE0 \<le> byte s0" "byte s0 < 0xF0" "0x80 \<le> byte s1" "byte s1 \<le> 0xBF"
    and "byte s0 = 0xE0 \<Longrightarrow> 0xA0 \<le> byte s1"
    and "byte s0 = 0xED \<Longrightarrow> byte s1 \<le> 0x9F"
    and "0x80 \<le> byte s2" "byte s2 \<le> 0xBF"
  shows "EncodeRune (byte s0 mod 16 * 4096 + byte s1 mod 64 * 64 + byte s2 mod 64) = [s0, s1, s2]"
proof -
  define x where "x = byte s0 mod 16"
  define y where "y = byte s1 mod 64"
  define z where "z = byte s2 mod 64"
  have b0: "byte s0 = 224 + x" using mod_range [of 14 16 "byte s0"] assms(1,2) by (simp add: x_def)
  have b1: "byte s1 = 128 + y" using cont_split [of "byte s1"] assms(3,4) by (simp add: y_def)
  have b2: "byte s2 = 128 + z" using cont_split [of "byte s2"] assms(7,8) by (simp add: z_def)
  have x: "x < 16" by (simp add: x_def)
  have y: "y < 64" by (simp add: y_def)
  have z: "z < 64" by (simp add: z_def)
  have x0: "x = 0 \<Longrightarrow> 32 \<le> y" using assms(5) b0 b1 by simp
  have x13: "x = 13 \<Longrightarrow> y \<le> 31" using assms(6) b0 b1 by simp
  define r where "r = x * 4096 + y * 64 + z"
  have lo: "\<not> r \<le> 0x7FF" using x0 by (cases "x = 0") (simp_all add: r_def)
  have hi: "r \<le> 0xFFFF" using x y z by (simp add: r_def)
  have ns: "\<not> (0xD800 \<le> r \<and> r \<le> 0xDFFF)"
  proof (cases "x = 13")
    case True
    then show ?thesis using x13 z by (simp add: r_def)
  next
    case False
    then have "x \<le> 12 \<or> 14 \<le> x" by arith
    then show ?thesis using y z by (auto simp: r_def)
  qed
  have "EncodeRune r = [char_of (224 + x), char_of (128 + y), char_of (128 + z)]"
    using lo hi ns pack3 [OF y z, of x] by (simp add: EncodeRune_def r_def)
  then show ?thesis
    unfolding r_def x_def [symmetric] y_def [symmetric] z_def [symmetric]
    using b0 b1 b2 char_of_byte by metis
qed

lemma encode4:
  assumes "0xF0 \<le> byte s0" "byte s0 \<le> 0xF4" "0x80 \<le> byte s1" "byte s1 \<le> 0xBF"
    and "byte s0 = 0xF0 \<Longrightarrow> 0x90 \<le> byte s1"
    and "byte s0 = 0xF4 \<Longrightarrow> byte s1 \<le> 0x8F"
    and "0x80 \<le> byte s2" "byte s2 \<le> 0xBF" "0x80 \<le> byte s3" "byte s3 \<le> 0xBF"
  shows "EncodeRune (byte s0 mod 8 * 262144 + byte s1 mod 64 * 4096 + byte s2 mod 64 * 64 +
      byte s3 mod 64) = [s0, s1, s2, s3]"
proof -
  define w where "w = byte s0 mod 8"
  define x where "x = byte s1 mod 64"
  define y where "y = byte s2 mod 64"
  define z where "z = byte s3 mod 64"
  have b0: "byte s0 = 240 + w" using mod_range [of 30 8 "byte s0"] assms(1,2) by (simp add: w_def)
  have b1: "byte s1 = 128 + x" using cont_split [of "byte s1"] assms(3,4) by (simp add: x_def)
  have b2: "byte s2 = 128 + y" using cont_split [of "byte s2"] assms(7,8) by (simp add: y_def)
  have b3: "byte s3 = 128 + z" using cont_split [of "byte s3"] assms(9,10) by (simp add: z_def)
  have w: "w \<le> 4" using b0 assms(2) by simp
  have x: "x < 64" by (simp add: x_def)
  have y: "y < 64" by (simp add: y_def)
  have z: "z < 64" by (simp add: z_def)
  have w0: "w = 0 \<Longrightarrow> 16 \<le> x" using assms(5) b0 b1 by simp
  have w4: "w = 4 \<Longrightarrow> x \<le> 15" using assms(6) b0 b1 by simp
  define r where "r = w * 262144 + x * 4096 + y * 64 + z"
  have lo: "\<not> r \<le> 0xFFFF" using w0 by (cases "w = 0") (simp_all add: r_def)
  have hi: "\<not> r > 0x10FFFF"
  proof (cases "w = 4")
    case True
    then show ?thesis using w4 y z by (simp add: r_def)
  next
    case False
    then have "w \<le> 3" using w by arith
    then show ?thesis using x y z by (simp add: r_def)
  qed
  have ns: "\<not> (0xD800 \<le> r \<and> r \<le> 0xDFFF)" using lo by simp
  have l1: "\<not> r \<le> 0x7F" and l2: "\<not> r \<le> 0x7FF" using lo by simp_all
  have "EncodeRune r = [char_of (240 + w), char_of (128 + x), char_of (128 + y), char_of (128 + z)]"
    using l1 l2 lo hi ns pack4 [OF x y z, of w] by (simp add: EncodeRune_def r_def)
  then show ?thesis
    unfolding r_def w_def [symmetric] x_def [symmetric] y_def [symmetric] z_def [symmetric]
    using b0 b1 b2 b3 char_of_byte by metis
qed

lemma DecodeRune_cases:
  assumes "DecodeRune (c # cs) = (r, n)" "n \<noteq> 1"
  obtains
    (two) s1 t where "cs = s1 # t" "n = 2" "0xC2 \<le> byte c" "byte c < 0xE0" "accept_ok c s1"
      "r = byte c mod 32 * 64 + byte s1 mod 64"
  | (three) s1 s2 t where "cs = s1 # s2 # t" "n = 3" "0xE0 \<le> byte c" "byte c < 0xF0"
      "accept_ok c s1" "is_cont s2"
      "r = byte c mod 16 * 4096 + byte s1 mod 64 * 64 + byte s2 mod 64"
  | (four) s1 s2 s3 t where "cs = s1 # s2 # s3 # t" "n = 4" "0xF0 \<le> byte c" "byte c \<le> 0xF4"
      "accept_ok c s1" "is_cont s2" "is_cont s3"
      "r = byte c mod 8 * 262144 + byte s1 mod 64 * 4096 + byte s2 mod 64 * 64 + byte s3 mod 64"
  using assms
  by (simp add: DecodeRune_def first_def accept_ok_def split: list.splits if_splits lead.splits)

lemma DecodeRune_valid:
  assumes "DecodeRune (c # cs) = (r, n)" "n \<noteq> 1"
  shows "EncodeRune r = take n (c # cs)"
    and "DecodeRune (take n (c # cs) @ t) = (r, n)"
    and "2 \<le> n" and "n \<le> length (c # cs)" and "0x80 \<le> byte c"
proof -
  have "EncodeRune r = take n (c # cs) \<and> DecodeRune (take n (c # cs) @ t) = (r, n) \<and>
      2 \<le> n \<and> n \<le> length (c # cs) \<and> 0x80 \<le> byte c"
    using assms
  proof (cases rule: DecodeRune_cases)
    case (two s1 t')
    have "EncodeRune r = [c, s1]"
      unfolding two(6) using two(3,4,5) by (intro encode2) (simp_all add: accept_ok_def)
    moreover have "DecodeRune ([c, s1] @ t) = (r, 2)"
      using two(3,4,5,6) by (simp add: DecodeRune_def first_def accept_ok_def)
    ultimately show ?thesis using two(1,2,3) by simp
  next
    case (three s1 s2 t')
    have "EncodeRune r = [c, s1, s2]"
      unfolding three(7) using three(3,4,5,6)
      by (intro encode3) (simp_all add: accept_ok_def is_cont_def)
    moreover have "DecodeRune ([c, s1, s2] @ t) = (r, 3)"
      using three(3,4,5,6,7) by (auto simp: DecodeRune_def first_def accept_ok_def)
    ultimately show ?thesis using three(1,2,3) by simp
  next
    case (four s1 s2 s3 t')
    have "EncodeRune r = [c, s1, s2, s3]"
      unfolding four(8) using four(3,4,5,6,7)
      by (intro encode4) (simp_all add: accept_ok_def is_cont_def)
    moreover have "DecodeRune ([c, s1, s2, s3] @ t) = (r, 4)"
      using four(3,4,5,6,7,8) by (auto simp: DecodeRune_def first_def accept_ok_def)
    ultimately show ?thesis using four(1,2,3) by simp
  qed
  then show "EncodeRune r = take n (c # cs)"
    and "DecodeRune (take n (c # cs) @ t) = (r, n)"
    and "2 \<le> n" and "n \<le> length (c # cs)" and "0x80 \<le> byte c"
    by simp_all
qed

section \<open>The decoder inverts the encoder\<close>

lemma coerce_utf8_valid: "ValidString s \<Longrightarrow> coerce_utf8 s = s"
proof (induction s rule: ValidString.induct)
  case 1
  then show ?case by simp
next
  case (2 c cs)
  obtain r n where d: "DecodeRune (c # cs) = (r, n)" by (cases "DecodeRune (c # cs)")
  from "2.prems" d have nv: "\<not> (r = RuneError \<and> n = 1)" and v: "ValidString (drop n (c # cs))"
    by simp_all
  from "2.IH" [OF d [symmetric] v]
  have "coerce_utf8 (drop n (c # cs)) = drop n (c # cs)" .
  then show ?case using d nv by auto
qed

lemma byte_eq_iff: "byte c = byte d \<longleftrightarrow> c = d"
  by (simp add: byte_def)

lemma byte_dquote: "byte dquote = 34" by (simp add: byte_def dquote_def)
lemma byte_backslash: "byte backslash = 92" by (simp add: byte_def backslash_def)

lemma emit_Some: "emit p (Some (t, rest)) = Some (p @ t, rest)"
  by (simp add: emit_def)

lemma DecodeRune_ascii: "byte c < 0x80 \<Longrightarrow> DecodeRune (c # cs) = (byte c, 1)"
  by (simp add: DecodeRune_def first_def)

lemma DecodeRune_high:
  assumes "\<not> byte c < 0x80" "DecodeRune (c # cs) = (r, n)" "n = 1"
  shows "r = RuneError"
  using assms
  by (auto simp: DecodeRune_def first_def split: list.splits if_splits lead.splits)

lemma unquote_plain:
  assumes "htmlSafeSet (byte c)"
  shows "unquote_body (c # X) = emit [c] (unquote_body X)"
proof -
  have "c \<noteq> dquote" "c \<noteq> backslash" "\<not> byte c < 0x20" "byte c < 0x80"
    using assms byte_dquote byte_backslash by (auto simp: htmlSafeSet_def)
  then show ?thesis by simp
qed

lemma byte_char_of: "n < 256 \<Longrightarrow> byte (char_of n) = n"
  by (simp add: byte_def)

lemma hexval_hex: "k < 16 \<Longrightarrow> hexval (hex k) = Some k"
  by (auto simp: hexval_def hex_def byte_char_of)

lemma hexval_zero: "hexval CHR ''0'' = Some 0"
  by (simp add: hexval_def byte_def)

lemma getu4_00:
  assumes "b < 0x80"
  shows "getu4 (backslash # CHR ''u'' # CHR ''0'' # CHR ''0'' # hex (b div 16) # hex (b mod 16) # X)
    = Some b"
proof -
  have "b div 16 < 16" "b mod 16 < 16" using assms by simp_all
  then show ?thesis by (simp add: hexval_hex hexval_zero)
qed

lemma EncodeRune_ascii: "byte c < 0x80 \<Longrightarrow> EncodeRune (byte c) = [c]"
  by (simp add: EncodeRune_def char_of_byte)

lemma simple_escape_u: "simple_escape CHR ''u'' = None"
  by (simp add: simple_escape_def dquote_def backslash_def)

lemma unquote_u4:
  assumes "getu4 (backslash # CHR ''u'' # h1 # h2 # h3 # h4 # X) = Some rr" "\<not> IsSurrogate rr"
  shows "unquote_body (backslash # CHR ''u'' # h1 # h2 # h3 # h4 # X) =
    emit (EncodeRune rr) (unquote_body X)"
proof -
  have "backslash \<noteq> dquote" by (simp add: backslash_def dquote_def)
  then show ?thesis
    using assms simple_escape_u by (simp del: getu4.simps)
qed

lemma unquote_simple:
  assumes "simple_escape e = Some x"
  shows "unquote_body (backslash # e # X) = emit [x] (unquote_body X)"
proof -
  have "backslash \<noteq> dquote" by (simp add: backslash_def dquote_def)
  then show ?thesis using assms by simp
qed

lemma unquote_escape:
  assumes "byte c < 0x80" "\<not> htmlSafeSet (byte c)"
  shows "unquote_body (escape c @ X) = emit [c] (unquote_body X)"
proof -
  consider (q) "c = backslash \<or> c = dquote"
    | (b) "byte c = 8" | (f) "byte c = 12" | (n) "byte c = 10" | (r) "byte c = 13"
    | (t) "byte c = 9"
    | (u) "c \<noteq> backslash" "c \<noteq> dquote" "byte c \<notin> {8, 12, 10, 13, 9}"
    by auto
  then show ?thesis
  proof cases
    case q
    then have "escape c = [backslash, c]" "simple_escape c = Some c"
      by (auto simp: escape_def simple_escape_def)
    then show ?thesis using unquote_simple by simp
  next
    case b
    then have nq: "c \<noteq> backslash" "c \<noteq> dquote"
      using byte_backslash byte_dquote by auto
    have "escape c = [backslash, CHR ''b'']"
      using nq b by (simp add: escape_def)
    moreover have "simple_escape CHR ''b'' = Some (char_of (byte c))"
      using b by (simp add: simple_escape_def backslash_def dquote_def)
    ultimately show ?thesis using unquote_simple char_of_byte by simp
  next
    case f
    then have nq: "c \<noteq> backslash" "c \<noteq> dquote"
      using byte_backslash byte_dquote by auto
    have "escape c = [backslash, CHR ''f'']"
      using nq f by (simp add: escape_def)
    moreover have "simple_escape CHR ''f'' = Some (char_of (byte c))"
      using f by (simp add: simple_escape_def backslash_def dquote_def)
    ultimately show ?thesis using unquote_simple char_of_byte by simp
  next
    case n
    then have nq: "c \<noteq> backslash" "c \<noteq> dquote"
      using byte_backslash byte_dquote by auto
    have "escape c = [backslash, CHR ''n'']"
      using nq n by (simp add: escape_def)
    moreover have "simple_escape CHR ''n'' = Some (char_of (byte c))"
      using n by (simp add: simple_escape_def backslash_def dquote_def)
    ultimately show ?thesis using unquote_simple char_of_byte by simp
  next
    case r
    then have nq: "c \<noteq> backslash" "c \<noteq> dquote"
      using byte_backslash byte_dquote by auto
    have "escape c = [backslash, CHR ''r'']"
      using nq r by (simp add: escape_def)
    moreover have "simple_escape CHR ''r'' = Some (char_of (byte c))"
      using r by (simp add: simple_escape_def backslash_def dquote_def)
    ultimately show ?thesis using unquote_simple char_of_byte by simp
  next
    case t
    then have nq: "c \<noteq> backslash" "c \<noteq> dquote"
      using byte_backslash byte_dquote by auto
    have "escape c = [backslash, CHR ''t'']"
      using nq t by (simp add: escape_def)
    moreover have "simple_escape CHR ''t'' = Some (char_of (byte c))"
      using t by (simp add: simple_escape_def backslash_def dquote_def)
    ultimately show ?thesis using unquote_simple char_of_byte by simp
  next
    case u
    then have e: "escape c =
        [backslash, CHR ''u'', CHR ''0'', CHR ''0'', hex (byte c div 16), hex (byte c mod 16)]"
      by (simp add: escape_def)
    have "\<not> IsSurrogate (byte c)" using assms(1) by (simp add: IsSurrogate_def)
    from unquote_u4 [OF getu4_00 [OF assms(1)] this]
    show ?thesis using e EncodeRune_ascii [OF assms(1)] by simp
  qed
qed

lemma unquote_replacement:
  "unquote_body (backslash # CHR ''u'' # CHR ''f'' # CHR ''f'' # CHR ''f'' # CHR ''d'' # X) =
    emit (EncodeRune RuneError) (unquote_body X)"
proof -
  have "getu4 (backslash # CHR ''u'' # CHR ''f'' # CHR ''f'' # CHR ''f'' # CHR ''d'' # X) =
      Some RuneError"
    by (simp add: hexval_def byte_def RuneError_def)
  moreover have "\<not> IsSurrogate RuneError" by (simp add: IsSurrogate_def RuneError_def)
  ultimately show ?thesis by (rule unquote_u4)
qed

lemma unquote_separator:
  assumes "r = 0x2028 \<or> r = 0x2029"
  shows "unquote_body (backslash # CHR ''u'' # CHR ''2'' # CHR ''0'' # CHR ''2'' # hex (r mod 16) # X) =
    emit (EncodeRune r) (unquote_body X)"
proof -
  have "r mod 16 < 16" by simp
  from hexval_hex [OF this]
  have "getu4 (backslash # CHR ''u'' # CHR ''2'' # CHR ''0'' # CHR ''2'' # hex (r mod 16) # X) =
      Some (8224 + r mod 16)"
    by (simp add: hexval_def byte_def)
  moreover have "8224 + r mod 16 = r" using assms by auto
  moreover have "\<not> IsSurrogate r" using assms by (auto simp: IsSurrogate_def)
  ultimately show ?thesis using unquote_u4 by simp
qed

lemma unquote_multibyte:
  assumes "DecodeRune (c # cs) = (r, n)" "n \<noteq> 1"
  shows "unquote_body (take n (c # cs) @ X) = emit (take n (c # cs)) (unquote_body X)"
proof -
  note v = DecodeRune_valid [OF assms]
  obtain p where p: "take n (c # cs) = c # p"
    using v(3) by (cases n) simp_all
  have len: "length (take n (c # cs)) = n" using v(4) by simp
  have d: "DecodeRune (c # p @ X) = (r, n)" using v(2) [of X] p by simp
  have "c \<noteq> dquote" "c \<noteq> backslash" "\<not> byte c < 0x20" "\<not> byte c < 0x80"
    using v(5) byte_dquote byte_backslash by auto
  then have "unquote_body (c # p @ X) = emit (EncodeRune r) (unquote_body (drop n (c # p @ X)))"
    using d by simp
  moreover have "drop n (c # p @ X) = X" using len p by (metis append_Cons append_eq_conv_conj)
  ultimately show ?thesis using v(1) p by simp
qed

declare unquote_body.simps [simp del]

lemma unquote_appendString_body:
  "unquote_body (appendString_body s @ dquote # rest) = Some (coerce_utf8 s, rest)"
proof (induction s rule: appendString_body.induct)
  case 1
  show ?case by (simp add: unquote_body.simps)
next
  case (2 c cs)
  obtain r n where d: "DecodeRune (c # cs) = (r, n)" by (cases "DecodeRune (c # cs)")
  show ?case
  proof (cases "byte c < 0x80")
    case True
    note ih = "2.IH"(1) [OF True]
    have co: "coerce_utf8 (c # cs) = c # coerce_utf8 cs"
      using DecodeRune_ascii [OF True, of cs] True by (simp add: RuneError_def)
    show ?thesis
    proof (cases "htmlSafeSet (byte c)")
      case True
      then show ?thesis
        using \<open>byte c < 0x80\<close> ih co unquote_plain [OF True] by (simp add: emit_Some)
    next
      case False
      then show ?thesis
        using \<open>byte c < 0x80\<close> ih co unquote_escape [OF \<open>byte c < 0x80\<close> False]
        by (simp add: emit_Some)
    qed
  next
    case high: False
    show ?thesis
    proof (cases "r = RuneError \<and> n = 1")
      case True
      note ih = "2.IH"(2) [OF high d [symmetric] True]
      show ?thesis
        using high d True ih unquote_replacement by (simp add: emit_Some)
    next
      case nv: False
      then have n1: "n \<noteq> 1" using DecodeRune_high [OF high d] by blast
      have co: "coerce_utf8 (c # cs) = take n (c # cs) @ coerce_utf8 (drop n (c # cs))"
        using d n1 by simp
      show ?thesis
      proof (cases "r = 0x2028 \<or> r = 0x2029")
        case True
        note ih = "2.IH"(3) [OF high d [symmetric] nv True]
        have e: "EncodeRune r = take n (c # cs)" using DecodeRune_valid(1) [OF d n1] .
        have ap: "appendString_body (c # cs) =
            [backslash, CHR ''u'', CHR ''2'', CHR ''0'', CHR ''2'', hex (r mod 16)] @
            appendString_body (drop n (c # cs))"
          using high d n1 True by simp
        show ?thesis
          unfolding ap co using ih unquote_separator [OF True] e by (simp add: emit_Some)
      next
        case False
        note ih = "2.IH"(4) [OF high d [symmetric] nv False]
        have ap: "appendString_body (c # cs) =
            take n (c # cs) @ appendString_body (drop n (c # cs))"
          using high d n1 False by simp
        show ?thesis
          unfolding ap co using ih unquote_multibyte [OF d n1] by (simp add: emit_Some)
      qed
    qed
  qed
qed

declare members.simps [simp del]

lemma skip_ws_nonspace: "\<not> isSpace c \<Longrightarrow> skip_ws (c # s) = c # s"
  by (simp add: skip_ws_def)

lemma not_space_dquote: "\<not> isSpace dquote"
  by (simp add: isSpace_def dquote_def byte_def)

lemma member_value_appendString:
  "member_value (appendString v @ R) = Some (Some (coerce_utf8 v), R)"
  by (simp add: member_value_def appendString_def unquote_appendString_body)

lemma members_more:
  assumes "skip_ws R = R"
  shows "members m (appendString k @ CHR '':'' # appendString v @ CHR '','' # R) =
    members (set_field m (coerce_utf8 k) (Some (coerce_utf8 v))) R"
proof -
  have sp: "\<not> isSpace CHR '':''" "\<not> isSpace CHR '',''"
    by (simp_all add: isSpace_def byte_def)
  have k: "unquote_body (appendString_body k @ dquote # CHR '':'' # appendString v @ CHR '','' # R) =
      Some (coerce_utf8 k, CHR '':'' # appendString v @ CHR '','' # R)"
    by (rule unquote_appendString_body)
  have v: "member_value (skip_ws (appendString v @ CHR '','' # R)) =
      Some (Some (coerce_utf8 v), CHR '','' # R)"
    using member_value_appendString [of v "CHR '','' # R"]
    by (simp add: appendString_def skip_ws_nonspace [OF not_space_dquote])
  show ?thesis
    apply (subst members.simps)
    apply (simp add: appendString_def [of k] k skip_ws_nonspace [OF sp(1)] v
        skip_ws_nonspace [OF sp(2)] assms)
    done
qed

lemma members_last:
  "members m (appendString k @ CHR '':'' # appendString v @ CHR ''}'' # R) =
    Some (set_field m (coerce_utf8 k) (Some (coerce_utf8 v)), R)"
proof -
  have sp: "\<not> isSpace CHR '':''" "\<not> isSpace CHR ''}''"
    by (simp_all add: isSpace_def byte_def)
  have k: "unquote_body (appendString_body k @ dquote # CHR '':'' # appendString v @ CHR ''}'' # R) =
      Some (coerce_utf8 k, CHR '':'' # appendString v @ CHR ''}'' # R)"
    by (rule unquote_appendString_body)
  have v: "member_value (skip_ws (appendString v @ CHR ''}'' # R)) =
      Some (Some (coerce_utf8 v), CHR ''}'' # R)"
    using member_value_appendString [of v "CHR ''}'' # R"]
    by (simp add: appendString_def skip_ws_nonspace [OF not_space_dquote])
  show ?thesis
    apply (subst members.simps)
    apply (simp add: appendString_def [of k] k skip_ws_nonspace [OF sp(1)] v
        skip_ws_nonspace [OF sp(2)])
    done
qed

lemma coerce_artist: "coerce_utf8 ''artist'' = ''artist''"
  by (simp add: DecodeRune_ascii byte_def RuneError_def)

lemma coerce_title: "coerce_utf8 ''title'' = ''title''"
  by (simp add: DecodeRune_ascii byte_def RuneError_def)

lemma coerce_year: "coerce_utf8 ''year'' = ''year''"
  by (simp add: DecodeRune_ascii byte_def RuneError_def)

lemma char_of_eq: "n < 256 \<Longrightarrow> char_of n = c \<longleftrightarrow> n = byte c"
  using byte_char_of char_of_byte by auto

lemma fold_names:
  "foldName ''artist'' = ''ARTIST''" "foldName ''title'' = ''TITLE''" "foldName ''year'' = ''YEAR''"
  by (simp_all add: byte_def char_of_eq)

lemma skip_ws_appendString: "skip_ws (appendString k @ R) = appendString k @ R"
  by (simp add: appendString_def skip_ws_nonspace [OF not_space_dquote])

lemma set_fields:
  "set_field (set_field (set_field m0 ''artist'' (Some a)) ''title'' (Some t)) ''year'' (Some y) =
    \<lparr>md_Artist = a, md_Title = t, md_Year = y\<rparr>"
  by (simp only: set_field_def fold_names option.case if_True if_False refl list.inject
      AlbumMetadata.simps AlbumMetadata.update_convs) simp


lemma members_marshal:
  "members m0 (marshal_members m) = Some (coerce_metadata m, [])"
proof -
  have "members m0 (marshal_members m) =
      Some (set_field (set_field (set_field m0 (coerce_utf8 ''artist'')
          (Some (coerce_utf8 (md_Artist m))))
        (coerce_utf8 ''title'') (Some (coerce_utf8 (md_Title m))))
        (coerce_utf8 ''year'') (Some (coerce_utf8 (md_Year m))), [])"
    unfolding marshal_members_def
    apply (subst members_more [OF skip_ws_appendString])
    apply (subst members_more [OF skip_ws_appendString])
    apply (subst members_last)
    apply (rule refl)
    done
  then show ?thesis
    by (simp only: coerce_artist coerce_title coerce_year set_fields coerce_metadata_def)
qed

lemma Marshal_eq: "Marshal m = Inr (CHR ''{'' # marshal_members m)"
  by (simp add: Marshal_def marshal_members_def)

lemma Unmarshal_object:
  assumes "members m0 (dquote # R) = Some (m', [])"
  shows "Unmarshal (CHR ''{'' # dquote # R) m0 = Inr m'"
proof -
  have brace: "\<not> isSpace CHR ''{''" by (simp add: isSpace_def byte_def)
  have nb: "dquote \<noteq> CHR ''}''" by (simp add: dquote_def)
  show ?thesis
    using nb assms not_space_dquote brace by (simp add: Unmarshal_def skip_ws_def)
qed

lemma Unmarshal_Marshal:
  assumes "Marshal m = Inr doc"
  shows "Unmarshal doc m0 = Inr (coerce_metadata m)"
proof -
  have doc: "doc = CHR ''{'' # marshal_members m" using assms by (simp add: Marshal_eq)
  obtain R where R: "marshal_members m = dquote # R"
    by (simp add: marshal_members_def appendString_def)
  show ?thesis
    unfolding doc R using members_marshal [of m0 m, unfolded R] by (rule Unmarshal_object)
qed

lemma Marshal_total: "\<exists>doc. Marshal m = Inr doc"
  by (simp add: Marshal_def)

text \<open>
  The string that \<open>rendered\<close> puts in a body is the one that the decoder reads from the
  bytes that the encoder writes for it.
\<close>

lemma rendered_read_back:
  "unquote_body (tl (appendString s)) = Some (v, []) \<longleftrightarrow> rendered (JString s) = JString v"
  using unquote_appendString_body [of s "[]"] by (auto simp: appendString_def)

section \<open>Joining the image directory and a file name\<close>

lemma split_slash_plain: "CHR ''/'' \<notin> set f \<Longrightarrow> split_slash f = [f]"
  by (induction f) auto

lemma Join_plain:
  assumes "plain_name f"
  shows "Join [imageDir, f] = ''images/'' @ f"
proof -
  have s: "split_slash (''./images/'' @ f) = [''.'', ''images'', f]"
    using assms by (simp add: plain_name_def split_slash_plain)
  have "clean_elems False [] [''.'', ''images'', f] = [''images'', f]"
    using assms by (simp add: plain_name_def)
  then have "Clean (''./images/'' @ f) = ''images/'' @ f"
    using s by (simp add: Clean_def)
  then show ?thesis by (simp add: Join_def imageDir_def)
qed

section \<open>\<open>Atoi\<close> reads what \<open>Itoa\<close> writes\<close>

lemma is_digit_digit_char: "d < 10 \<Longrightarrow> is_digit (digit_char d) \<and> digit_val (digit_char d) = d"
  by (simp add: is_digit_def digit_val_def digit_char_def)

lemma parse_digits_append:
  "parse_digits acc (xs @ [c]) =
    (case parse_digits acc xs of
       None \<Rightarrow> None
     | Some a \<Rightarrow> if is_digit c then Some (a * 10 + digit_val c) else None)"
  by (induction xs arbitrary: acc) auto

lemma parse_digits_digits: "parse_digits 0 (digits n) = Some n"
proof (induction n rule: digits.induct)
  case (1 n)
  show ?case
  proof (cases "n < 10")
    case True
    then show ?thesis
      using is_digit_digit_char [of n] by (subst digits.simps) simp
  next
    case False
    have d: "n mod 10 < 10" by simp
    from False "1.IH" have "parse_digits 0 (digits (n div 10)) = Some (n div 10)" by simp
    then show ?thesis
      using False is_digit_digit_char [OF d]
      by (subst digits.simps) (simp add: parse_digits_append)
  qed
qed

lemma digits_all_digit: "list_all is_digit (digits n)"
proof (induction n rule: digits.induct)
  case (1 n)
  show ?case
  proof (cases "n < 10")
    case True
    then show ?thesis using is_digit_digit_char [of n] by (subst digits.simps) simp
  next
    case False
    have d: "n mod 10 < 10" by simp
    from False "1.IH" show ?thesis
      using is_digit_digit_char [OF d] by (subst digits.simps) simp
  qed
qed

lemma digits_nonempty: "digits n \<noteq> []"
  by (subst digits.simps) simp

lemma not_digit_sign: "\<not> is_digit CHR ''-''" "\<not> is_digit CHR ''+''"
  by (simp_all add: is_digit_def)

lemma digits_head: "\<exists>c cs. digits n = c # cs \<and> c \<noteq> CHR ''-'' \<and> c \<noteq> CHR ''+''"
proof -
  obtain c cs where e: "digits n = c # cs" using digits_nonempty [of n] by (cases "digits n") auto
  have "is_digit c" using digits_all_digit [of n] e by simp
  then show ?thesis using e not_digit_sign by auto
qed

lemma Atoi_Itoa:
  assumes "in_int_range k"
  shows "Atoi (Itoa k) = Some k"
proof (cases "k < 0")
  case True
  then show ?thesis
    using assms parse_digits_digits [of "nat (- k)"] digits_nonempty [of "nat (- k)"]
    by (simp add: Atoi_def Itoa_def signed_digits_def)
next
  case False
  obtain c cs where e: "digits (nat k) = c # cs" "c \<noteq> CHR ''-''" "c \<noteq> CHR ''+''"
    using digits_head [of "nat k"] by blast
  then have "Atoi (digits (nat k)) = signed_digits False (digits (nat k))"
    by (simp add: Atoi_def)
  then show ?thesis
    using False assms parse_digits_digits [of "nat k"] digits_nonempty [of "nat k"]
    by (simp add: Itoa_def signed_digits_def)
qed

lemma parse_digits_all: "parse_digits acc ds = Some n \<Longrightarrow> list_all is_digit ds"
  by (induction ds arbitrary: acc) (auto split: if_splits)

lemma Atoi_syntax:
  assumes "Atoi s = Some k"
  shows "decimal_syntax s"
  using assms
  by (auto simp: Atoi_def decimal_syntax_def signed_digits_def Let_def
      split: list.splits if_splits option.splits dest: parse_digits_all)

lemma Atoi_rejects: "\<not> decimal_syntax s \<Longrightarrow> Atoi s = None"
  using Atoi_syntax by (cases "Atoi s") auto

section \<open>The remote handlers, call by call\<close>

lemmas status_defs = StatusOK_def StatusBadRequest_def StatusNotFound_def
  StatusInternalServerError_def

lemma uploadToS3_db: "db (snd (uploadToS3 bucket env header w)) = db w"
  by (simp add: uploadToS3_def Let_def split: option.splits)

lemma insert_album_Inr:
  assumes "insert_album fault url a t y d = (Inr k, d')"
  shows "k = auto_increment d" and "k \<le> 2147483647"
    and "\<exists>url' a' t' y'. varchar (strict_mode d) 255 url = Some url' \<and>
           varchar (strict_mode d) 255 a = Some a' \<and> varchar (strict_mode d) 255 t = Some t' \<and>
           varchar (strict_mode d) 10 y = Some y' \<and>
           rows d' = rows d @ [\<lparr>row_id = k, row_image_url = url', row_artist = a',
             row_title = t', row_year = y'\<rparr>]"
    and "auto_increment d' = k + 1" and "strict_mode d' = strict_mode d"
    and "calls d' = calls d @ [ExecInsert]"
  using assms
  by (auto simp: insert_album_def Let_def split: option.splits if_splits)

lemma insert_album_Inl:
  assumes "insert_album fault url a t y d = (Inl e, d')"
  shows "rows d' = rows d" and "auto_increment d' = auto_increment d"
  using assms
  by (auto simp: insert_album_def Let_def split: option.splits if_splits)

lemma newAlbum_ok:
  assumes "status (fst (newAlbum bucket env req w)) = StatusOK"
  obtains header url sz w1 k d where
    "open_err env = None" "FormFile req ''image'' = Some header"
    "uploadToS3 bucket env header w = (Inr (url, sz), w1)"
    "insert_album (exec_err env) url (PostForm req ''profile[artist]'')
       (PostForm req ''profile[title]'') (PostForm req ''profile[year]'') (db w1) = (Inr k, d)"
    "newAlbum bucket env req w =
       (JSON StatusOK (JObject [(''albumID'', JNumber k), (''imageSize'', JNumber sz)]),
        w1\<lparr>db := d\<rparr>)"
  using assms
  by (auto simp: newAlbum_def Let_def JSON_def status_defs
      split: option.splits prod.splits sum.splits if_splits)

lemma find_append_new:
  fixes key :: "'r \<Rightarrow> int"
  assumes "list_all (\<lambda>r. key r < k) xs" "key new = k"
  shows "find (\<lambda>r. key r = k) (xs @ [new]) = Some new"
  using assms by (induction xs) auto

lemma varchar_fits: "length v \<le> n \<Longrightarrow> varchar strict n v = Some v"
  by (simp add: varchar_def)

lemma remote_round_trip:
  assumes ok: "keys_ok row_id (db w)"
    and st: "status (fst (newAlbum bucket env req w)) = StatusOK"
    and q: "query_err env' = None"
    and la: "length (PostForm req ''profile[artist]'') \<le> 255"
    and lt: "length (PostForm req ''profile[title]'') \<le> 255"
    and ly: "length (PostForm req ''profile[year]'') \<le> 10"
  shows "\<exists>k url.
     body (fst (newAlbum bucket env req w)) =
       JObject [(''albumID'', JNumber k),
                (''imageSize'', JNumber (int (length (Content (the (FormFile req ''image''))))))] \<and>
     fst (getAlbumByKey env' (Itoa k) (snd (newAlbum bucket env req w))) =
       JSON StatusOK (album_json
         \<lparr>ID = k, ImageURL = url, Artist = PostForm req ''profile[artist]'',
          Title = PostForm req ''profile[title]'', Year = PostForm req ''profile[year]'',
          ImageSize = 0\<rparr>)"
proof -
  from st obtain header url sz w1 k d where
    h: "FormFile req ''image'' = Some header"
    and up: "uploadToS3 bucket env header w = (Inr (url, sz), w1)"
    and ins: "insert_album (exec_err env) url (PostForm req ''profile[artist]'')
       (PostForm req ''profile[title]'') (PostForm req ''profile[year]'') (db w1) = (Inr k, d)"
    and res: "newAlbum bucket env req w =
       (JSON StatusOK (JObject [(''albumID'', JNumber k), (''imageSize'', JNumber sz)]),
        w1\<lparr>db := d\<rparr>)"
    by (rule newAlbum_ok)
  have sz: "sz = int (length (Content header))"
    using up by (auto simp: uploadToS3_def Let_def split: option.splits)
  have dbw1: "db w1 = db w" using uploadToS3_db [of bucket env header w] up by simp
  note i = insert_album_Inr [OF ins]
  from i(3) obtain url' where
    r: "rows d = rows (db w1) @ [\<lparr>row_id = k, row_image_url = url',
         row_artist = PostForm req ''profile[artist]'',
         row_title = PostForm req ''profile[title]'',
         row_year = PostForm req ''profile[year]''\<rparr>]"
    using varchar_fits [OF la] varchar_fits [OF lt] varchar_fits [OF ly] by auto
  have k1: "1 \<le> k" and old: "list_all (\<lambda>r. row_id r < k) (rows (db w1))"
    using ok i(1) dbw1 by (auto simp: keys_ok_def list_all_iff)
  have rng: "in_int_range k" using k1 i(2) by (simp add: in_int_range_def)
  have f: "find (\<lambda>r. row_id r = k) (rows d) =
      Some \<lparr>row_id = k, row_image_url = url',
         row_artist = PostForm req ''profile[artist]'',
         row_title = PostForm req ''profile[title]'',
         row_year = PostForm req ''profile[year]''\<rparr>"
    unfolding r by (rule find_append_new [OF old]) simp
  have "fst (getAlbumByKey env' (Itoa k) (w1\<lparr>db := d\<rparr>)) =
      JSON StatusOK (album_json
         \<lparr>ID = k, ImageURL = url', Artist = PostForm req ''profile[artist]'',
          Title = PostForm req ''profile[title]'', Year = PostForm req ''profile[year]'',
          ImageSize = 0\<rparr>)"
    using Atoi_Itoa [OF rng] q f
    by (simp add: getAlbumByKey_def select_album_def Let_def zero_Album_def)
  then show ?thesis using res sz h by (auto simp: JSON_def)
qed

section \<open>The local handlers, call by call\<close>

lemma insert_info_Inr:
  assumes "insert_info fault path doc d = (Inr k, d')"
  shows "k = auto_increment d" and "k \<le> 2147483647"
    and "\<exists>path'. varchar (strict_mode d) 255 path = Some path' \<and>
           rows d' = rows d @ [\<lparr>info_id = k, info_image_url = path', info_metadata = doc\<rparr>]"
    and "auto_increment d' = k + 1" and "strict_mode d' = strict_mode d"
    and "calls d' = calls d @ [ExecInsert]"
  using assms
  by (auto simp: insert_info_def Let_def split: option.splits if_splits)

lemma insert_info_Inl:
  assumes "insert_info fault path doc d = (Inl e, d')"
  shows "rows d' = rows d" and "auto_increment d' = auto_increment d"
  using assms
  by (auto simp: insert_info_def Let_def split: option.splits if_splits)

lemma postAlbums_ok:
  assumes "status (fst (postAlbums env req w)) = StatusOK"
  obtains imageFile imagePath f doc k d where
    "open_err env = None" "FormFile req ''image'' = Some imageFile"
    "saveImageLocally env imageFile (fs w) = (Inr imagePath, f)"
    "Marshal \<lparr>md_Artist = PostForm req ''artist'', md_Title = PostForm req ''title'',
       md_Year = PostForm req ''year''\<rparr> = Inr doc"
    "insert_info (exec_err env) imagePath doc (ldb w) = (Inr k, d)"
    "postAlbums env req w =
       (JSON StatusOK (JObject [(''albumID'', JNumber k), (''imagePath'', JString imagePath)]),
        w\<lparr>fs := f, ldb := d\<rparr>)"
  using assms
  by (auto simp: postAlbums_def Let_def JSON_def status_defs
      split: option.splits prod.splits sum.splits if_splits)

lemma find_cong_pred: "(\<And>x. x \<in> set xs \<Longrightarrow> P x = Q x) \<Longrightarrow> find P xs = find Q xs"
  by (induction xs) auto

lemma local_round_trip:
  assumes ok: "keys_ok info_id (ldb w)"
    and cmp: "decimal_cmp cmp"
    and st: "status (fst (postAlbums env req w)) = StatusOK"
    and q: "query_err env' = None"
  shows "\<exists>k path path'.
     body (fst (postAlbums env req w)) =
       JObject [(''albumID'', JNumber k), (''imagePath'', JString path)] \<and>
     fst (getAlbum cmp env' (Itoa k) (snd (postAlbums env req w))) =
       JSON StatusOK (info_json
         \<lparr>AlbumID = k, info_ImageURL = path',
          Metadata = coerce_metadata
            \<lparr>md_Artist = PostForm req ''artist'', md_Title = PostForm req ''title'',
             md_Year = PostForm req ''year''\<rparr>\<rparr>)"
proof -
  let ?m = "\<lparr>md_Artist = PostForm req ''artist'', md_Title = PostForm req ''title'',
             md_Year = PostForm req ''year''\<rparr>"
  from st obtain imageFile imagePath f doc k d where
    "FormFile req ''image'' = Some imageFile"
    and m: "Marshal ?m = Inr doc"
    and ins: "insert_info (exec_err env) imagePath doc (ldb w) = (Inr k, d)"
    and res: "postAlbums env req w =
       (JSON StatusOK (JObject [(''albumID'', JNumber k), (''imagePath'', JString imagePath)]),
        w\<lparr>fs := f, ldb := d\<rparr>)"
    by (rule postAlbums_ok)
  note i = insert_info_Inr [OF ins]
  from i(3) obtain path' where
    r: "rows d = rows (ldb w) @ [\<lparr>info_id = k, info_image_url = path', info_metadata = doc\<rparr>]"
    by auto
  have old: "list_all (\<lambda>r. info_id r < k) (rows (ldb w))"
    using ok i(1) by (auto simp: keys_ok_def list_all_iff)
  have k1: "1 \<le> k" using ok i(1) by (simp add: keys_ok_def)
  have rng: "in_int_range k" using k1 i(2) by (simp add: in_int_range_def)
  have "find (\<lambda>r. cmp (Itoa k) (info_id r)) (rows d) = find (\<lambda>r. info_id r = k) (rows d)"
    using cmp rng by (intro find_cong_pred) (simp add: decimal_cmp_def)
  also have "\<dots> = Some \<lparr>info_id = k, info_image_url = path', info_metadata = doc\<rparr>"
    unfolding r by (rule find_append_new [OF old]) simp
  finally have f: "find (\<lambda>r. cmp (Itoa k) (info_id r)) (rows d) =
      Some \<lparr>info_id = k, info_image_url = path', info_metadata = doc\<rparr>" .
  have "fst (getAlbum cmp env' (Itoa k) (w\<lparr>fs := f, ldb := d\<rparr>)) =
      JSON StatusOK (info_json
         \<lparr>AlbumID = k, info_ImageURL = path', Metadata = coerce_metadata ?m\<rparr>)"
    using q f Unmarshal_Marshal [OF m, of zero_AlbumMetadata]
    by (simp add: getAlbum_def select_info_def Let_def)
  then show ?thesis using res by (auto simp: JSON_def)
qed

lemma coerce_metadata_valid:
  assumes "ValidString (md_Artist m)" "ValidString (md_Title m)" "ValidString (md_Year m)"
  shows "coerce_metadata m = m"
  using assms by (simp add: coerce_metadata_def coerce_utf8_valid)

lemma keys_ok_empty: "keys_ok key (empty_db strict)"
  by (simp add: keys_ok_def empty_db_def)

lemma insert_album_keys_ok:
  assumes "keys_ok row_id d"
  shows "keys_ok row_id (snd (insert_album fault url a t y d))"
proof -
  have "\<And>r. r \<in> set (rows d) \<Longrightarrow> row_id r < auto_increment d + 1"
    using assms by (fastforce simp: keys_ok_def list_all_iff)
  then show ?thesis
    using assms
    by (auto simp: insert_album_def Let_def keys_ok_def list_all_iff
        split: option.splits if_splits)
qed

lemma keys_ok_newAlbum:
  assumes "keys_ok row_id (db w)"
  shows "keys_ok row_id (db (snd (newAlbum bucket env req w)))"
proof (cases "if open_err env = None then FormFile req ''image'' else None")
  case None
  then show ?thesis using assms by (simp add: newAlbum_def)
next
  case (Some header)
  obtain res w1 where up: "uploadToS3 bucket env header w = (res, w1)"
    by (cases "uploadToS3 bucket env header w")
  have w1: "db w1 = db w" using uploadToS3_db [of bucket env header w] up by simp
  show ?thesis
  proof (cases res)
    case (Inl e)
    then show ?thesis using Some up w1 assms by (simp add: newAlbum_def)
  next
    case (Inr p)
    obtain url sz where p: "p = (url, sz)" by (cases p)
    have "keys_ok row_id (snd (insert_album (exec_err env) url (PostForm req ''profile[artist]'')
        (PostForm req ''profile[title]'') (PostForm req ''profile[year]'') (db w1)))"
      using assms w1 by (simp add: insert_album_keys_ok)
    then show ?thesis
      using Some up Inr p
      by (auto simp: newAlbum_def Let_def split: prod.splits sum.splits)
  qed
qed

lemma keys_ok_getAlbumByKey:
  assumes "keys_ok row_id (db w)"
  shows "keys_ok row_id (db (snd (getAlbumByKey env idStr w)))"
  using assms
  by (auto simp: getAlbumByKey_def select_album_def Let_def keys_ok_def
      split: option.splits scan.splits prod.splits)

lemma decimal_cmp_atoi: "decimal_cmp atoi_cmp"
  using Atoi_Itoa by (auto simp: decimal_cmp_def atoi_cmp_def)

section \<open>Round trip of the metadata\<close>

lemma coerce_ascii: "list_all (\<lambda>c. byte c < 0x80) s \<Longrightarrow> coerce_utf8 s = s"
  by (induction s) (simp_all add: DecodeRune_ascii RuneError_def)

lemmas ascii_eval = DecodeRune_ascii byte_def RuneError_def

lemmas remote_eval = newAlbum_def getAlbumByKey_def quiet_def profile_request_def
  plain_request_def long_year_request_def invalid_utf8_profile_request_def s3_down_def
  empty_world_def empty_db_def FormFile_def PostForm_def uploadToS3_def insert_album_def
  select_album_def varchar_def Let_def JSON_def cover_def object_url_def object_key_def Ext_def
  Atoi_def signed_digits_def is_digit_def digit_val_def in_int_range_def zero_Album_def
  album_json_def member_def error_body_def status_defs after_upload_def keys_ok_def

lemma Join_cover: "Join [imageDir, ''cover.jpg''] = ''images/cover.jpg''"
  using Join_plain [of "''cover.jpg''"] by (simp add: plain_name_def)

lemmas local_eval = postAlbums_def getAlbum_def quiet_def plain_request_def
  invalid_utf8_request_def disk_full_def
  empty_local_def empty_db_def FormFile_def PostForm_def saveImageLocally_def write_file_def
  insert_info_def select_info_def varchar_def Let_def JSON_def cover_def Join_cover
  Marshal_def member_def error_body_def status_defs after_local_upload_def keys_ok_def
  info_json_def metadata_json_def atoi_cmp_def

lemma valid_ascii:
  "ValidString ''Boards''" "ValidString ''Music Has...''" "ValidString ''1998''"
  by (simp_all add: DecodeRune_ascii byte_def RuneError_def)

lemma coerce_invalid: "coerce_utf8 [CHR 0xFF] = [CHR 0xEF, CHR 0xBF, CHR 0xBD]"
  by (simp add: DecodeRune_def first_def byte_def EncodeRune_def RuneError_def char_of_eq)

text \<open>
  C1. In both variants, when the upload is answered with 200 and an id, the
  lookup of that id (absent a database fault) returns the three values that the handler
  read from the form, provided they are valid UTF-8 and, in the remote variant, within
  the widths of their columns. The remote handler reads them from the fields
  \<open>profile[artist]\<close>, \<open>profile[title]\<close> and \<open>profile[year]\<close>, the local
  one from \<open>artist\<close>, \<open>title\<close> and \<open>year\<close>.
\<close>

theorem C1_round_trip:
  "(keys_ok row_id (db w) \<and> status (fst (newAlbum bucket env req w)) = StatusOK \<and>
    query_err env' = None \<and>
    length (PostForm req ''profile[artist]'') \<le> 255 \<and>
    length (PostForm req ''profile[title]'') \<le> 255 \<and>
    length (PostForm req ''profile[year]'') \<le> 10 \<and>
    ValidString (PostForm req ''profile[artist]'') \<and>
    ValidString (PostForm req ''profile[title]'') \<and>
    ValidString (PostForm req ''profile[year]'') \<longrightarrow>
    (\<exists>k. member (body (fst (newAlbum bucket env req w))) ''albumID'' = Some (JNumber k) \<and>
      status (fst (getAlbumByKey env' (Itoa k) (snd (newAlbum bucket env req w)))) = StatusOK \<and>
      member (body (fst (getAlbumByKey env' (Itoa k) (snd (newAlbum bucket env req w)))))
        ''artist'' = Some (JString (PostForm req ''profile[artist]'')) \<and>
      member (body (fst (getAlbumByKey env' (Itoa k) (snd (newAlbum bucket env req w)))))
        ''title'' = Some (JString (PostForm req ''profile[title]'')) \<and>
      member (body (fst (getAlbumByKey env' (Itoa k) (snd (newAlbum bucket env req w)))))
        ''year'' = Some (JString (PostForm req ''profile[year]'')))) \<and>
   (keys_ok info_id (ldb lw) \<and> decimal_cmp cmp \<and>
    status (fst (postAlbums lenv lreq lw)) = StatusOK \<and> query_err lenv' = None \<and>
    ValidString (PostForm lreq ''artist'') \<and> ValidString (PostForm lreq ''title'') \<and>
    ValidString (PostForm lreq ''year'') \<longrightarrow>
    (\<exists>k. member (body (fst (postAlbums lenv lreq lw))) ''albumID'' = Some (JNumber k) \<and>
      status (fst (getAlbum cmp lenv' (Itoa k) (snd (postAlbums lenv lreq lw)))) = StatusOK \<and>
      member (body (fst (getAlbum cmp lenv' (Itoa k) (snd (postAlbums lenv lreq lw)))))
        ''metadata'' =
        Some (metadata_json \<lparr>md_Artist = PostForm lreq ''artist'',
          md_Title = PostForm lreq ''title'', md_Year = PostForm lreq ''year''\<rparr>)))"
proof (intro conjI impI)
  assume a: "keys_ok row_id (db w) \<and> status (fst (newAlbum bucket env req w)) = StatusOK \<and>
    query_err env' = None \<and>
    length (PostForm req ''profile[artist]'') \<le> 255 \<and>
    length (PostForm req ''profile[title]'') \<le> 255 \<and>
    length (PostForm req ''profile[year]'') \<le> 10 \<and>
    ValidString (PostForm req ''profile[artist]'') \<and>
    ValidString (PostForm req ''profile[title]'') \<and>
    ValidString (PostForm req ''profile[year]'')"
  from a have v: "coerce_utf8 (PostForm req ''profile[artist]'') = PostForm req ''profile[artist]''"
    "coerce_utf8 (PostForm req ''profile[title]'') = PostForm req ''profile[title]''"
    "coerce_utf8 (PostForm req ''profile[year]'') = PostForm req ''profile[year]''"
    by (simp_all add: coerce_utf8_valid)
  from a have "\<exists>k url.
     body (fst (newAlbum bucket env req w)) =
       JObject [(''albumID'', JNumber k),
                (''imageSize'', JNumber (int (length (Content (the (FormFile req ''image''))))))] \<and>
     fst (getAlbumByKey env' (Itoa k) (snd (newAlbum bucket env req w))) =
       JSON StatusOK (album_json
         \<lparr>ID = k, ImageURL = url, Artist = PostForm req ''profile[artist]'',
          Title = PostForm req ''profile[title]'', Year = PostForm req ''profile[year]'',
          ImageSize = 0\<rparr>)"
    by (intro remote_round_trip) simp_all
  then obtain k url where
    "body (fst (newAlbum bucket env req w)) =
       JObject [(''albumID'', JNumber k),
                (''imageSize'', JNumber (int (length (Content (the (FormFile req ''image''))))))]"
    "fst (getAlbumByKey env' (Itoa k) (snd (newAlbum bucket env req w))) =
       JSON StatusOK (album_json
         \<lparr>ID = k, ImageURL = url, Artist = PostForm req ''profile[artist]'',
          Title = PostForm req ''profile[title]'', Year = PostForm req ''profile[year]'',
          ImageSize = 0\<rparr>)"
    by blast
  then show "\<exists>k. member (body (fst (newAlbum bucket env req w))) ''albumID'' = Some (JNumber k) \<and>
      status (fst (getAlbumByKey env' (Itoa k) (snd (newAlbum bucket env req w)))) = StatusOK \<and>
      member (body (fst (getAlbumByKey env' (Itoa k) (snd (newAlbum bucket env req w)))))
        ''artist'' = Some (JString (PostForm req ''profile[artist]'')) \<and>
      member (body (fst (getAlbumByKey env' (Itoa k) (snd (newAlbum bucket env req w)))))
        ''title'' = Some (JString (PostForm req ''profile[title]'')) \<and>
      member (body (fst (getAlbumByKey env' (Itoa k) (snd (newAlbum bucket env req w)))))
        ''year'' = Some (JString (PostForm req ''profile[year]''))"
    by (intro exI [of _ k]) (simp add: member_def JSON_def album_json_def v)
next
  assume a: "keys_ok info_id (ldb lw) \<and> decimal_cmp cmp \<and>
    status (fst (postAlbums lenv lreq lw)) = StatusOK \<and> query_err lenv' = None \<and>
    ValidString (PostForm lreq ''artist'') \<and> ValidString (PostForm lreq ''title'') \<and>
    ValidString (PostForm lreq ''year'')"
  let ?m = "\<lparr>md_Artist = PostForm lreq ''artist'', md_Title = PostForm lreq ''title'',
    md_Year = PostForm lreq ''year''\<rparr>"
  have c: "coerce_metadata ?m = ?m" using a by (intro coerce_metadata_valid) simp_all
  from a have v: "coerce_utf8 (PostForm lreq ''artist'') = PostForm lreq ''artist''"
    "coerce_utf8 (PostForm lreq ''title'') = PostForm lreq ''title''"
    "coerce_utf8 (PostForm lreq ''year'') = PostForm lreq ''year''"
    by (simp_all add: coerce_utf8_valid)
  from a have "\<exists>k path path'.
     body (fst (postAlbums lenv lreq lw)) =
       JObject [(''albumID'', JNumber k), (''imagePath'', JString path)] \<and>
     fst (getAlbum cmp lenv' (Itoa k) (snd (postAlbums lenv lreq lw))) =
       JSON StatusOK (info_json
         \<lparr>AlbumID = k, info_ImageURL = path', Metadata = coerce_metadata ?m\<rparr>)"
    by (intro local_round_trip) simp_all
  then obtain k path path' where
    "body (fst (postAlbums lenv lreq lw)) =
       JObject [(''albumID'', JNumber k), (''imagePath'', JString path)]"
    "fst (getAlbum cmp lenv' (Itoa k) (snd (postAlbums lenv lreq lw))) =
       JSON StatusOK (info_json
         \<lparr>AlbumID = k, info_ImageURL = path', Metadata = coerce_metadata ?m\<rparr>)"
    by blast
  then show "\<exists>k. member (body (fst (postAlbums lenv lreq lw))) ''albumID'' = Some (JNumber k) \<and>
      status (fst (getAlbum cmp lenv' (Itoa k) (snd (postAlbums lenv lreq lw)))) = StatusOK \<and>
      member (body (fst (getAlbum cmp lenv' (Itoa k) (snd (postAlbums lenv lreq lw)))))
        ''metadata'' = Some (metadata_json ?m)"
    unfolding c
    by (intro exI [of _ k]) (simp add: member_def JSON_def info_json_def metadata_json_def v)
qed

lemma remote_upload_ok:
  "status (fst (newAlbum ''b'' quiet profile_request (empty_world True))) = StatusOK"
  by (simp add: remote_eval)

lemma local_upload_ok:
  "status (fst (postAlbums quiet plain_request (empty_local True))) = StatusOK"
  by (simp add: local_eval)

theorem C1_round_trip_witness:
  "\<exists>k. member (body (fst (newAlbum ''b'' quiet profile_request (empty_world True))))
        ''albumID'' = Some (JNumber k) \<and>
     member (body (fst (getAlbumByKey quiet (Itoa k)
        (snd (newAlbum ''b'' quiet profile_request (empty_world True)))))) ''artist'' =
       Some (JString ''Boards'') \<and>
     (\<exists>j. member (body (fst (postAlbums quiet plain_request (empty_local True))))
        ''albumID'' = Some (JNumber j) \<and>
       member (body (fst (getAlbum atoi_cmp quiet (Itoa j)
        (snd (postAlbums quiet plain_request (empty_local True)))))) ''metadata'' =
       Some (metadata_json \<lparr>md_Artist = ''Boards'', md_Title = ''Music Has...'',
          md_Year = ''1998''\<rparr>))"
proof -
  have r: "keys_ok row_id (db (empty_world True)) \<and>
    status (fst (newAlbum ''b'' quiet profile_request (empty_world True))) = StatusOK \<and>
    query_err quiet = None \<and>
    length (PostForm profile_request ''profile[artist]'') \<le> 255 \<and>
    length (PostForm profile_request ''profile[title]'') \<le> 255 \<and>
    length (PostForm profile_request ''profile[year]'') \<le> 10 \<and>
    ValidString (PostForm profile_request ''profile[artist]'') \<and>
    ValidString (PostForm profile_request ''profile[title]'') \<and>
    ValidString (PostForm profile_request ''profile[year]'')"
    using remote_upload_ok valid_ascii
    by (simp add: keys_ok_empty empty_world_def quiet_def profile_request_def PostForm_def)
  have l: "keys_ok info_id (ldb (empty_local True)) \<and> decimal_cmp atoi_cmp \<and>
    status (fst (postAlbums quiet plain_request (empty_local True))) = StatusOK \<and>
    query_err quiet = None \<and>
    ValidString (PostForm plain_request ''artist'') \<and>
    ValidString (PostForm plain_request ''title'') \<and>
    ValidString (PostForm plain_request ''year'')"
    using local_upload_ok valid_ascii decimal_cmp_atoi
    by (simp add: keys_ok_empty empty_local_def quiet_def plain_request_def PostForm_def)
  have v: "PostForm profile_request ''profile[artist]'' = ''Boards''"
    "PostForm plain_request ''artist'' = ''Boards''"
    "PostForm plain_request ''title'' = ''Music Has...''"
    "PostForm plain_request ''year'' = ''1998''"
    by (simp_all add: profile_request_def plain_request_def PostForm_def)
  from C1_round_trip [of "empty_world True" "''b''" quiet profile_request quiet
      "empty_local True" atoi_cmp quiet plain_request quiet] r l
  show ?thesis unfolding v by blast
qed

lemma Itoa_1: "Itoa 1 = ''1''"
  by (simp add: Itoa_def digits.simps digit_char_def char_of_eq byte_def)

lemma invalid_utf8_lookup:
  "member (body (fst (getAlbum atoi_cmp quiet ''1''
      (snd (postAlbums quiet invalid_utf8_request (empty_local True)))))) ''metadata'' =
     Some (metadata_json \<lparr>md_Artist = [CHR 0xEF, CHR 0xBF, CHR 0xBD],
         md_Title = ''Music Has...'', md_Year = ''1998''\<rparr>)"
proof -
  have st: "status (fst (postAlbums quiet invalid_utf8_request (empty_local True))) = StatusOK"
    by (simp add: local_eval)
  have b: "body (fst (postAlbums quiet invalid_utf8_request (empty_local True))) =
     JObject [(''albumID'', JNumber 1), (''imagePath'', JString ''images/cover.jpg'')]"
    by (simp add: local_eval ascii_eval)
  have q: "query_err quiet = None" by (simp add: quiet_def)
  have k: "keys_ok info_id (ldb (empty_local True))"
    by (simp add: keys_ok_empty empty_local_def)
  have v: "PostForm invalid_utf8_request ''artist'' = [CHR 0xFF]"
    "PostForm invalid_utf8_request ''title'' = ''Music Has...''"
    "PostForm invalid_utf8_request ''year'' = ''1998''"
    by (simp_all add: invalid_utf8_request_def PostForm_def)
  have c: "coerce_metadata \<lparr>md_Artist = [CHR 0xFF], md_Title = ''Music Has...'',
       md_Year = ''1998''\<rparr> =
     \<lparr>md_Artist = [CHR 0xEF, CHR 0xBF, CHR 0xBD], md_Title = ''Music Has...'',
       md_Year = ''1998''\<rparr>"
    by (simp only: coerce_metadata_def coerce_invalid coerce_utf8_valid [OF valid_ascii(2)]
        coerce_utf8_valid [OF valid_ascii(3)] AlbumMetadata.simps)
  from local_round_trip [OF k decimal_cmp_atoi st q]
  obtain j path path' where
    j: "body (fst (postAlbums quiet invalid_utf8_request (empty_local True))) =
       JObject [(''albumID'', JNumber j), (''imagePath'', JString path)]"
    and g: "fst (getAlbum atoi_cmp quiet (Itoa j)
        (snd (postAlbums quiet invalid_utf8_request (empty_local True)))) =
       JSON StatusOK (info_json
         \<lparr>AlbumID = j, info_ImageURL = path',
          Metadata = coerce_metadata
            \<lparr>md_Artist = PostForm invalid_utf8_request ''artist'',
             md_Title = PostForm invalid_utf8_request ''title'',
             md_Year = PostForm invalid_utf8_request ''year''\<rparr>\<rparr>)"
    by blast
  from j b have j1: "j = 1" by simp
  have e: "coerce_utf8 [CHR 0xEF, CHR 0xBF, CHR 0xBD] = [CHR 0xEF, CHR 0xBF, CHR 0xBD]"
    "coerce_utf8 ''Music Has...'' = ''Music Has...''" "coerce_utf8 ''1998'' = ''1998''"
    by (simp_all add: DecodeRune_def first_def is_cont_def byte_def RuneError_def)
  show ?thesis
    using g unfolding j1 Itoa_1 v c
    by (simp add: member_def JSON_def info_json_def metadata_json_def e
        del: coerce_utf8.simps)
qed

theorem C1_round_trip_counterexample:
  "PostForm long_year_request ''profile[year]'' = ''12345678901'' \<and>
   member (body (fst (newAlbum ''b'' quiet long_year_request (empty_world False))))
     ''albumID'' = Some (JNumber 1) \<and>
   member (body (fst (getAlbumByKey quiet ''1''
     (snd (newAlbum ''b'' quiet long_year_request (empty_world False)))))) ''year'' =
     Some (JString ''1234567890'') \<and>
   fst (newAlbum ''b'' quiet long_year_request (empty_world True)) =
     JSON StatusInternalServerError (error_body data_too_long) \<and>
   PostForm invalid_utf8_profile_request ''profile[artist]'' = [CHR 0xFF] \<and>
   member (body (fst (newAlbum ''b'' quiet invalid_utf8_profile_request (empty_world True))))
     ''albumID'' = Some (JNumber 1) \<and>
   member (body (fst (getAlbumByKey quiet ''1''
     (snd (newAlbum ''b'' quiet invalid_utf8_profile_request (empty_world True))))))
     ''artist'' = Some (JString [CHR 0xEF, CHR 0xBF, CHR 0xBD]) \<and>
   PostForm invalid_utf8_request ''artist'' = [CHR 0xFF] \<and>
   member (body (fst (postAlbums quiet invalid_utf8_request (empty_local True))))
     ''albumID'' = Some (JNumber 1) \<and>
   member (body (fst (getAlbum atoi_cmp quiet ''1''
     (snd (postAlbums quiet invalid_utf8_request (empty_local True)))))) ''metadata'' =
     Some (metadata_json \<lparr>md_Artist = [CHR 0xEF, CHR 0xBF, CHR 0xBD],
       md_Title = ''Music Has...'', md_Year = ''1998''\<rparr>)"
proof -
  have r1: "PostForm long_year_request ''profile[year]'' = ''12345678901''"
    by (simp add: long_year_request_def PostForm_def)
  have r2: "member (body (fst (newAlbum ''b'' quiet long_year_request (empty_world False))))
     ''albumID'' = Some (JNumber 1)"
    by (simp add: remote_eval)
  have r3: "member (body (fst (getAlbumByKey quiet ''1''
     (snd (newAlbum ''b'' quiet long_year_request (empty_world False)))))) ''year'' =
     Some (JString ''1234567890'')"
    by (simp add: remote_eval ascii_eval)
  have r4: "fst (newAlbum ''b'' quiet long_year_request (empty_world True)) =
     JSON StatusInternalServerError (error_body data_too_long)"
    by (simp add: remote_eval)
  have u1: "PostForm invalid_utf8_profile_request ''profile[artist]'' = [CHR 0xFF]"
    by (simp add: invalid_utf8_profile_request_def PostForm_def)
  have u2: "member (body (fst (newAlbum ''b'' quiet invalid_utf8_profile_request
     (empty_world True)))) ''albumID'' = Some (JNumber 1)"
    by (simp add: remote_eval)
  have u3: "member (body (fst (getAlbumByKey quiet ''1''
     (snd (newAlbum ''b'' quiet invalid_utf8_profile_request (empty_world True))))))
     ''artist'' = Some (JString [CHR 0xEF, CHR 0xBF, CHR 0xBD])"
    by (simp add: remote_eval coerce_invalid del: coerce_utf8.simps)
  have l1: "PostForm invalid_utf8_request ''artist'' = [CHR 0xFF]"
    by (simp add: invalid_utf8_request_def PostForm_def)
  have l2: "member (body (fst (postAlbums quiet invalid_utf8_request (empty_local True))))
     ''albumID'' = Some (JNumber 1)"
    by (simp add: local_eval)
  from r1 r2 r3 r4 u1 u2 u3 l1 l2 invalid_utf8_lookup show ?thesis by (intro conjI)
qed

text \<open>
  C2. The remote lookup answers an identifier that is not an optionally signed
  run of decimal digits with 400 and leaves the database untouched. The local lookup
  has no such check: whatever the identifier, it sends one query and never answers 400.
\<close>

theorem C2_malformed_identifier:
  "(\<not> decimal_syntax idStr \<longrightarrow>
      getAlbumByKey env idStr w =
        (JSON StatusBadRequest (error_body ''Invalid album ID''), w)) \<and>
   calls (ldb (snd (getAlbum cmp lenv idStr lw))) = calls (ldb lw) @ [QueryRow] \<and>
   status (fst (getAlbum cmp lenv idStr lw)) \<noteq> StatusBadRequest"
proof (intro conjI impI)
  assume "\<not> decimal_syntax idStr"
  then have "Atoi idStr = None" by (rule Atoi_rejects)
  then show "getAlbumByKey env idStr w =
        (JSON StatusBadRequest (error_body ''Invalid album ID''), w)"
    by (simp add: getAlbumByKey_def)
next
  show "calls (ldb (snd (getAlbum cmp lenv idStr lw))) = calls (ldb lw) @ [QueryRow]"
    by (simp add: getAlbum_def select_info_def Let_def
        split: option.splits scan.splits sum.splits)
next
  show "status (fst (getAlbum cmp lenv idStr lw)) \<noteq> StatusBadRequest"
    by (simp add: getAlbum_def select_info_def Let_def JSON_def status_defs
        split: option.splits scan.splits sum.splits)
qed

lemma abc_not_decimal: "\<not> decimal_syntax ''abc''"
  by (simp add: decimal_syntax_def is_digit_def)

theorem C2_malformed_identifier_witness:
  "\<not> decimal_syntax ''abc'' \<and>
   getAlbumByKey quiet ''abc'' after_upload =
     (JSON StatusBadRequest (error_body ''Invalid album ID''), after_upload) \<and>
   calls (ldb (snd (getAlbum atoi_cmp quiet ''abc'' after_local_upload))) =
     calls (ldb after_local_upload) @ [QueryRow]"
  using C2_malformed_identifier [of "''abc''" quiet after_upload atoi_cmp quiet
      after_local_upload] abc_not_decimal
  by blast

theorem C2_malformed_identifier_counterexample:
  "\<not> decimal_syntax ''abc'' \<and>
   fst (getAlbum atoi_cmp quiet ''abc'' (empty_local True)) =
     JSON StatusNotFound (error_body ''Album not found'') \<and>
   calls (ldb (snd (getAlbum atoi_cmp quiet ''abc'' (empty_local True)))) = [QueryRow]"
proof -
  have a: "fst (getAlbum atoi_cmp quiet ''abc'' (empty_local True)) =
     JSON StatusNotFound (error_body ''Album not found'')"
    by (simp add: local_eval)
  have b: "calls (ldb (snd (getAlbum atoi_cmp quiet ''abc'' (empty_local True)))) = [QueryRow]"
    by (simp add: local_eval)
  from abc_not_decimal a b show ?thesis by (intro conjI)
qed

section \<open>Form fields and identifiers\<close>

text \<open>
  C3. The local upload reads the text fields \<open>artist\<close>, \<open>title\<close> and
  \<open>year\<close>; the remote upload reads the fields \<open>profile[artist]\<close>, \<open>profile[title]\<close>
  and \<open>profile[year]\<close>. When the upload is answered with 200, one row has been added:
  in the remote variant its three columns hold the values of the \<open>profile\<close> fields as the
  columns store them, in the local variant its metadata column holds the serialization of
  the three plain fields. The remote upload does not depend on any other text field.
\<close>

theorem C3_field_names:
  "(status (fst (newAlbum bucket env req w)) = StatusOK \<longrightarrow>
      (\<exists>row. rows (db (snd (newAlbum bucket env req w))) = rows (db w) @ [row] \<and>
         varchar (strict_mode (db w)) 255 (PostForm req ''profile[artist]'') =
           Some (row_artist row) \<and>
         varchar (strict_mode (db w)) 255 (PostForm req ''profile[title]'') =
           Some (row_title row) \<and>
         varchar (strict_mode (db w)) 10 (PostForm req ''profile[year]'') =
           Some (row_year row))) \<and>
   (form_files req' = form_files req \<and>
    PostForm req' ''profile[artist]'' = PostForm req ''profile[artist]'' \<and>
    PostForm req' ''profile[title]'' = PostForm req ''profile[title]'' \<and>
    PostForm req' ''profile[year]'' = PostForm req ''profile[year]'' \<longrightarrow>
      newAlbum bucket env req' w = newAlbum bucket env req w) \<and>
   (status (fst (postAlbums lenv lreq lw)) = StatusOK \<longrightarrow>
      (\<exists>row. rows (ldb (snd (postAlbums lenv lreq lw))) = rows (ldb lw) @ [row] \<and>
         Marshal \<lparr>md_Artist = PostForm lreq ''artist'', md_Title = PostForm lreq ''title'',
           md_Year = PostForm lreq ''year''\<rparr> = Inr (info_metadata row)))"
proof (intro conjI impI)
  assume st: "status (fst (newAlbum bucket env req w)) = StatusOK"
  from st obtain header url sz w1 k d where
    up: "uploadToS3 bucket env header w = (Inr (url, sz), w1)"
    and ins: "insert_album (exec_err env) url (PostForm req ''profile[artist]'')
       (PostForm req ''profile[title]'') (PostForm req ''profile[year]'') (db w1) = (Inr k, d)"
    and res: "newAlbum bucket env req w =
       (JSON StatusOK (JObject [(''albumID'', JNumber k), (''imageSize'', JNumber sz)]),
        w1\<lparr>db := d\<rparr>)"
    by (rule newAlbum_ok)
  have w1: "db w1 = db w" using uploadToS3_db [of bucket env header w] up by simp
  from insert_album_Inr(3) [OF ins] show
    "\<exists>row. rows (db (snd (newAlbum bucket env req w))) = rows (db w) @ [row] \<and>
         varchar (strict_mode (db w)) 255 (PostForm req ''profile[artist]'') =
           Some (row_artist row) \<and>
         varchar (strict_mode (db w)) 255 (PostForm req ''profile[title]'') =
           Some (row_title row) \<and>
         varchar (strict_mode (db w)) 10 (PostForm req ''profile[year]'') =
           Some (row_year row)"
    unfolding res w1 by auto
next
  assume "form_files req' = form_files req \<and>
    PostForm req' ''profile[artist]'' = PostForm req ''profile[artist]'' \<and>
    PostForm req' ''profile[title]'' = PostForm req ''profile[title]'' \<and>
    PostForm req' ''profile[year]'' = PostForm req ''profile[year]''"
  then show "newAlbum bucket env req' w = newAlbum bucket env req w"
    by (elim conjE) (simp only: newAlbum_def FormFile_def)
next
  assume st: "status (fst (postAlbums lenv lreq lw)) = StatusOK"
  from st obtain imageFile imagePath f doc k d where
    "FormFile lreq ''image'' = Some imageFile"
    and m: "Marshal \<lparr>md_Artist = PostForm lreq ''artist'', md_Title = PostForm lreq ''title'',
       md_Year = PostForm lreq ''year''\<rparr> = Inr doc"
    and ins: "insert_info (exec_err lenv) imagePath doc (ldb lw) = (Inr k, d)"
    and res: "postAlbums lenv lreq lw =
       (JSON StatusOK (JObject [(''albumID'', JNumber k), (''imagePath'', JString imagePath)]),
        lw\<lparr>fs := f, ldb := d\<rparr>)"
    by (rule postAlbums_ok)
  from insert_info_Inr(3) [OF ins] m show
    "\<exists>row. rows (ldb (snd (postAlbums lenv lreq lw))) = rows (ldb lw) @ [row] \<and>
         Marshal \<lparr>md_Artist = PostForm lreq ''artist'', md_Title = PostForm lreq ''title'',
           md_Year = PostForm lreq ''year''\<rparr> = Inr (info_metadata row)"
    unfolding res by auto
qed

theorem C3_field_names_witness:
  "(\<exists>row. rows (db (snd (newAlbum ''b'' quiet profile_request (empty_world True)))) = [row] \<and>
      row_artist row = ''Boards'' \<and> row_title row = ''Music Has...'' \<and>
      row_year row = ''1998'') \<and>
   newAlbum ''b'' quiet (profile_request\<lparr>form_values :=
       form_values profile_request @ [(''artist'', ''Other'')]\<rparr>) (empty_world True) =
     newAlbum ''b'' quiet profile_request (empty_world True) \<and>
   (\<exists>row. rows (ldb (snd (postAlbums quiet plain_request (empty_local True)))) = [row] \<and>
      Marshal \<lparr>md_Artist = ''Boards'', md_Title = ''Music Has...'', md_Year = ''1998''\<rparr> =
        Inr (info_metadata row))"
proof -
  have v: "PostForm profile_request ''profile[artist]'' = ''Boards''"
    "PostForm profile_request ''profile[title]'' = ''Music Has...''"
    "PostForm profile_request ''profile[year]'' = ''1998''"
    "PostForm plain_request ''artist'' = ''Boards''"
    "PostForm plain_request ''title'' = ''Music Has...''"
    "PostForm plain_request ''year'' = ''1998''"
    by (simp_all add: profile_request_def plain_request_def PostForm_def)
  have e: "rows (db (empty_world True)) = []" "strict_mode (db (empty_world True))"
    "rows (ldb (empty_local True)) = []"
    by (simp_all add: empty_world_def empty_local_def empty_db_def)
  have vc: "varchar True 255 ''Boards'' = Some ''Boards''"
    "varchar True 255 ''Music Has...'' = Some ''Music Has...''"
    "varchar True 10 ''1998'' = Some ''1998''"
    by (simp_all add: varchar_def)
  have s: "form_files (profile_request\<lparr>form_values :=
       form_values profile_request @ [(''artist'', ''Other'')]\<rparr>) = form_files profile_request \<and>
    PostForm (profile_request\<lparr>form_values :=
       form_values profile_request @ [(''artist'', ''Other'')]\<rparr>) ''profile[artist]'' =
      PostForm profile_request ''profile[artist]'' \<and>
    PostForm (profile_request\<lparr>form_values :=
       form_values profile_request @ [(''artist'', ''Other'')]\<rparr>) ''profile[title]'' =
      PostForm profile_request ''profile[title]'' \<and>
    PostForm (profile_request\<lparr>form_values :=
       form_values profile_request @ [(''artist'', ''Other'')]\<rparr>) ''profile[year]'' =
      PostForm profile_request ''profile[year]''"
    by (simp add: profile_request_def PostForm_def)
  note t = C3_field_names [of "''b''" quiet profile_request "empty_world True"
      "profile_request\<lparr>form_values := form_values profile_request @ [(''artist'', ''Other'')]\<rparr>"
      quiet plain_request "empty_local True"]
  from t [THEN conjunct1, THEN mp, OF remote_upload_ok]
  have a: "\<exists>row. rows (db (snd (newAlbum ''b'' quiet profile_request (empty_world True)))) =
      [row] \<and> row_artist row = ''Boards'' \<and> row_title row = ''Music Has...'' \<and>
      row_year row = ''1998''"
    unfolding v by (auto simp: e vc)
  from t [THEN conjunct2, THEN conjunct1, THEN mp, OF s]
  have b: "newAlbum ''b'' quiet (profile_request\<lparr>form_values :=
       form_values profile_request @ [(''artist'', ''Other'')]\<rparr>) (empty_world True) =
     newAlbum ''b'' quiet profile_request (empty_world True)" .
  from t [THEN conjunct2, THEN conjunct2, THEN mp, OF local_upload_ok]
  have c: "\<exists>row. rows (ldb (snd (postAlbums quiet plain_request (empty_local True)))) =
      [row] \<and>
      Marshal \<lparr>md_Artist = ''Boards'', md_Title = ''Music Has...'', md_Year = ''1998''\<rparr> =
        Inr (info_metadata row)"
    unfolding v e by simp
  from a b c show ?thesis by (intro conjI)
qed

theorem C3_field_names_counterexample:
  "PostForm plain_request ''artist'' = ''Boards'' \<and>
   PostForm plain_request ''title'' = ''Music Has...'' \<and>
   PostForm plain_request ''year'' = ''1998'' \<and>
   member (body (fst (newAlbum ''b'' quiet plain_request (empty_world True)))) ''albumID'' =
     Some (JNumber 1) \<and>
   fst (getAlbumByKey quiet ''1'' (snd (newAlbum ''b'' quiet plain_request (empty_world True)))) =
     JSON StatusOK (album_json \<lparr>ID = 1,
       ImageURL = object_url ''b'' (object_key (new_uuid quiet) ''cover.jpg''),
       Artist = [], Title = [], Year = [], ImageSize = 0\<rparr>)"
proof -
  have v: "PostForm plain_request ''artist'' = ''Boards''"
    "PostForm plain_request ''title'' = ''Music Has...''"
    "PostForm plain_request ''year'' = ''1998''"
    by (simp_all add: plain_request_def PostForm_def)
  have a: "member (body (fst (newAlbum ''b'' quiet plain_request (empty_world True))))
      ''albumID'' = Some (JNumber 1)"
    by (simp add: remote_eval)
  have b: "fst (getAlbumByKey quiet ''1''
      (snd (newAlbum ''b'' quiet plain_request (empty_world True)))) =
     JSON StatusOK (album_json \<lparr>ID = 1,
       ImageURL = object_url ''b'' (object_key (new_uuid quiet) ''cover.jpg''),
       Artist = [], Title = [], Year = [], ImageSize = 0\<rparr>)"
    by (simp add: remote_eval)
  from v a b show ?thesis by (intro conjI)
qed

text \<open>
  C4. The remote lookup answers 400, without a query, exactly the identifiers
  that \<open>Atoi\<close> rejects. A negative integer is not among them: the lookup sends the
  query, and on a table whose keys were drawn from the counter it answers 404.
\<close>

theorem C4_negative_identifier:
  "(Atoi idStr = None \<longrightarrow>
      getAlbumByKey env idStr w =
        (JSON StatusBadRequest (error_body ''Invalid album ID''), w)) \<and>
   (Atoi idStr \<noteq> None \<longrightarrow>
      status (fst (getAlbumByKey env idStr w)) \<noteq> StatusBadRequest \<and>
      calls (db (snd (getAlbumByKey env idStr w))) = calls (db w) @ [QueryRow]) \<and>
   (k < 0 \<and> in_int_range k \<and> keys_ok row_id (db w) \<and> query_err env = None \<longrightarrow>
      fst (getAlbumByKey env (Itoa k) w) =
        JSON StatusNotFound (JObject [(''msg'', JString ''Key not found'')]) \<and>
      calls (db (snd (getAlbumByKey env (Itoa k) w))) = calls (db w) @ [QueryRow])"
proof (intro conjI impI)
  assume "Atoi idStr = None"
  then show "getAlbumByKey env idStr w =
        (JSON StatusBadRequest (error_body ''Invalid album ID''), w)"
    by (simp add: getAlbumByKey_def)
next
  assume "Atoi idStr \<noteq> None"
  then show "status (fst (getAlbumByKey env idStr w)) \<noteq> StatusBadRequest"
    by (auto simp: getAlbumByKey_def select_album_def Let_def JSON_def status_defs
        split: option.splits scan.splits)
next
  assume "Atoi idStr \<noteq> None"
  then show "calls (db (snd (getAlbumByKey env idStr w))) = calls (db w) @ [QueryRow]"
    by (auto simp: getAlbumByKey_def select_album_def Let_def
        split: option.splits scan.splits)
next
  assume a: "k < 0 \<and> in_int_range k \<and> keys_ok row_id (db w) \<and> query_err env = None"
  then have p: "Atoi (Itoa k) = Some k" by (simp add: Atoi_Itoa)
  have "\<not> (\<exists>r. r \<in> set (rows (db w)) \<and> row_id r = k)"
    using a by (auto simp: keys_ok_def list_all_iff)
  then have f: "find (\<lambda>r. row_id r = k) (rows (db w)) = None"
    by (simp add: find_None_iff)
  from a p f show "fst (getAlbumByKey env (Itoa k) w) =
        JSON StatusNotFound (JObject [(''msg'', JString ''Key not found'')])"
    by (simp add: getAlbumByKey_def select_album_def Let_def)
next
  assume a: "k < 0 \<and> in_int_range k \<and> keys_ok row_id (db w) \<and> query_err env = None"
  then have p: "Atoi (Itoa k) = Some k" by (simp add: Atoi_Itoa)
  then show "calls (db (snd (getAlbumByKey env (Itoa k) w))) = calls (db w) @ [QueryRow]"
    by (auto simp: getAlbumByKey_def select_album_def Let_def
        split: option.splits scan.splits)
qed

lemma Itoa_minus_5: "Itoa (- 5) = ''-5''"
  by (simp add: Itoa_def digits.simps digit_char_def char_of_eq byte_def)

lemma keys_ok_after_upload: "keys_ok row_id (db after_upload)"
  unfolding after_upload_def
  by (rule keys_ok_newAlbum) (simp add: empty_world_def keys_ok_empty)

theorem C4_negative_identifier_witness:
  "getAlbumByKey quiet ''abc'' after_upload =
     (JSON StatusBadRequest (error_body ''Invalid album ID''), after_upload) \<and>
   status (fst (getAlbumByKey quiet ''1'' after_upload)) \<noteq> StatusBadRequest \<and>
   fst (getAlbumByKey quiet ''-5'' after_upload) =
     JSON StatusNotFound (JObject [(''msg'', JString ''Key not found'')]) \<and>
   calls (db (snd (getAlbumByKey quiet ''-5'' after_upload))) =
     calls (db after_upload) @ [QueryRow]"
proof -
  have n: "Atoi ''abc'' = None" by (rule Atoi_rejects [OF abc_not_decimal])
  have s: "Atoi ''1'' \<noteq> None"
    by (simp add: Atoi_def signed_digits_def is_digit_def digit_val_def in_int_range_def)
  have h: "(- 5 :: int) < 0 \<and> in_int_range (- 5) \<and> keys_ok row_id (db after_upload) \<and>
      query_err quiet = None"
    using keys_ok_after_upload by (simp add: in_int_range_def quiet_def)
  from C4_negative_identifier [of "''abc''" quiet after_upload "- 5"] n h
  have a: "getAlbumByKey quiet ''abc'' after_upload =
     (JSON StatusBadRequest (error_body ''Invalid album ID''), after_upload) \<and>
    fst (getAlbumByKey quiet ''-5'' after_upload) =
     JSON StatusNotFound (JObject [(''msg'', JString ''Key not found'')]) \<and>
    calls (db (snd (getAlbumByKey quiet ''-5'' after_upload))) =
     calls (db after_upload) @ [QueryRow]"
    unfolding Itoa_minus_5 by blast
  from C4_negative_identifier [of "''1''" quiet after_upload "- 5"] s
  have b: "status (fst (getAlbumByKey quiet ''1'' after_upload)) \<noteq> StatusBadRequest"
    by blast
  from a b show ?thesis by blast
qed

theorem C4_negative_identifier_counterexample:
  "fst (getAlbumByKey quiet ''-5'' (empty_world True)) =
     JSON StatusNotFound (JObject [(''msg'', JString ''Key not found'')]) \<and>
   calls (db (snd (getAlbumByKey quiet ''-5'' (empty_world True)))) = [QueryRow]"
proof -
  have a: "fst (getAlbumByKey quiet ''-5'' (empty_world True)) =
     JSON StatusNotFound (JObject [(''msg'', JString ''Key not found'')])"
    by (simp add: remote_eval)
  have b: "calls (db (snd (getAlbumByKey quiet ''-5'' (empty_world True)))) = [QueryRow]"
    by (simp add: remote_eval)
  from a b show ?thesis by (intro conjI)
qed

section \<open>Failures and the stored image\<close>

text \<open>
  C5. When the upload of the image fails, the handler answers 500 and returns before the
  insert statement: the database, and with it the record of the calls it received, is as
  it was. This holds for \<open>uploadToS3\<close> in the remote variant, which then leaves the whole
  state as it was, and for \<open>saveImageLocally\<close> in the local one.
\<close>

theorem C5_blob_failure_aborts:
  "(open_err env = None \<and> FormFile req ''image'' = Some header \<and>
    fst (uploadToS3 bucket env header w) = Inl e \<longrightarrow>
      fst (newAlbum bucket env req w) =
        JSON StatusInternalServerError (error_body ''Failed to upload image to S3'') \<and>
      snd (newAlbum bucket env req w) = w) \<and>
   (open_err lenv = None \<and> FormFile lreq ''image'' = Some imageFile \<and>
    fst (saveImageLocally lenv imageFile (fs lw)) = Inl le \<longrightarrow>
      fst (postAlbums lenv lreq lw) = JSON StatusInternalServerError (error_body le) \<and>
      ldb (snd (postAlbums lenv lreq lw)) = ldb lw)"
proof (intro conjI impI)
  assume a: "open_err env = None \<and> FormFile req ''image'' = Some header \<and>
    fst (uploadToS3 bucket env header w) = Inl e"
  obtain res w1 where up: "uploadToS3 bucket env header w = (res, w1)"
    by (cases "uploadToS3 bucket env header w")
  have w1: "w1 = w"
    using up a by (auto simp: uploadToS3_def Let_def split: option.splits)
  from a up w1 show "fst (newAlbum bucket env req w) =
        JSON StatusInternalServerError (error_body ''Failed to upload image to S3'')"
    by (simp add: newAlbum_def)
  from a up w1 show "snd (newAlbum bucket env req w) = w"
    by (simp add: newAlbum_def)
next
  assume a: "open_err lenv = None \<and> FormFile lreq ''image'' = Some imageFile \<and>
    fst (saveImageLocally lenv imageFile (fs lw)) = Inl le"
  obtain res f where sv: "saveImageLocally lenv imageFile (fs lw) = (res, f)"
    by (cases "saveImageLocally lenv imageFile (fs lw)")
  from a sv show "fst (postAlbums lenv lreq lw) =
      JSON StatusInternalServerError (error_body le)"
    by (simp add: postAlbums_def)
  from a sv show "ldb (snd (postAlbums lenv lreq lw)) = ldb lw"
    by (simp add: postAlbums_def)
qed

theorem C5_blob_failure_aborts_witness:
  "fst (newAlbum ''b'' s3_down profile_request after_upload) =
     JSON StatusInternalServerError (error_body ''Failed to upload image to S3'') \<and>
   snd (newAlbum ''b'' s3_down profile_request after_upload) = after_upload \<and>
   fst (postAlbums disk_full plain_request after_local_upload) =
     JSON StatusInternalServerError
       (error_body ''failed to write image file: no space left on device'') \<and>
   ldb (snd (postAlbums disk_full plain_request after_local_upload)) = ldb after_local_upload"
proof -
  have r: "open_err s3_down = None \<and> FormFile profile_request ''image'' = Some cover \<and>
    fst (uploadToS3 ''b'' s3_down cover after_upload) = Inl ''RequestTimeout''"
    by (simp add: s3_down_def quiet_def profile_request_def FormFile_def uploadToS3_def)
  have l: "open_err disk_full = None \<and> FormFile plain_request ''image'' = Some cover \<and>
    fst (saveImageLocally disk_full cover (fs after_local_upload)) =
      Inl ''failed to write image file: no space left on device''"
    by (simp add: disk_full_def quiet_def plain_request_def FormFile_def saveImageLocally_def)
  note t = C5_blob_failure_aborts [of s3_down profile_request cover "''b''" after_upload
      "''RequestTimeout''" disk_full plain_request cover after_local_upload
      "''failed to write image file: no space left on device''"]
  from t [THEN conjunct1, THEN mp, OF r] t [THEN conjunct2, THEN mp, OF l]
  show ?thesis by (intro conjI) simp_all
qed

text \<open>
  C6. A lookup whose identifier is well formed and matches no row is answered with 404
  whenever the database answers the query: by \<open>{"msg": "Key not found"}\<close> in the remote
  variant, by \<open>{"error": "Album not found"}\<close> in the local one. 404 is not the code of
  the infrastructure errors. When the database fails to answer, the lookup reports that
  failure with 500.
\<close>

theorem C6_not_found:
  "(Atoi idStr = Some k \<and> k \<notin> row_id ` set (rows (db w)) \<longrightarrow>
      (query_err env = None \<longrightarrow>
         fst (getAlbumByKey env idStr w) =
           JSON StatusNotFound (JObject [(''msg'', JString ''Key not found'')])) \<and>
      (\<forall>e. query_err env = Some e \<longrightarrow>
         fst (getAlbumByKey env idStr w) = JSON StatusInternalServerError (error_body e))) \<and>
   ((\<forall>r \<in> set (rows (ldb lw)). \<not> cmp albumID (info_id r)) \<longrightarrow>
      (query_err lenv = None \<longrightarrow>
         fst (getAlbum cmp lenv albumID lw) =
           JSON StatusNotFound (error_body ''Album not found'')) \<and>
      (\<forall>e. query_err lenv = Some e \<longrightarrow>
         fst (getAlbum cmp lenv albumID lw) =
           JSON StatusInternalServerError (error_body e))) \<and>
   StatusNotFound \<noteq> StatusInternalServerError"
proof (intro conjI impI allI)
  assume a: "Atoi idStr = Some k \<and> k \<notin> row_id ` set (rows (db w))"
  then have f: "find (\<lambda>r. row_id r = k) (rows (db w)) = None"
    by (auto simp: find_None_iff)
  {
    assume "query_err env = None"
    with a f show "fst (getAlbumByKey env idStr w) =
           JSON StatusNotFound (JObject [(''msg'', JString ''Key not found'')])"
      by (simp add: getAlbumByKey_def select_album_def Let_def)
  }
  {
    fix e assume "query_err env = Some e"
    with a show "fst (getAlbumByKey env idStr w) =
        JSON StatusInternalServerError (error_body e)"
      by (simp add: getAlbumByKey_def select_album_def Let_def)
  }
next
  assume a: "\<forall>r \<in> set (rows (ldb lw)). \<not> cmp albumID (info_id r)"
  then have f: "find (\<lambda>r. cmp albumID (info_id r)) (rows (ldb lw)) = None"
    by (auto simp: find_None_iff)
  {
    assume "query_err lenv = None"
    with f show "fst (getAlbum cmp lenv albumID lw) =
           JSON StatusNotFound (error_body ''Album not found'')"
      by (simp add: getAlbum_def select_info_def Let_def)
  }
  {
    fix e assume "query_err lenv = Some e"
    then show "fst (getAlbum cmp lenv albumID lw) =
           JSON StatusInternalServerError (error_body e)"
      by (simp add: getAlbum_def select_info_def Let_def)
  }
next
  show "StatusNotFound \<noteq> StatusInternalServerError" by (simp add: status_defs)
qed

theorem C6_not_found_witness:
  "fst (getAlbumByKey quiet ''2'' after_upload) =
     JSON StatusNotFound (JObject [(''msg'', JString ''Key not found'')]) \<and>
   fst (getAlbum atoi_cmp quiet ''2'' after_local_upload) =
     JSON StatusNotFound (error_body ''Album not found'')"
proof -
  have p: "Atoi ''2'' = Some 2"
    by (simp add: Atoi_def signed_digits_def is_digit_def digit_val_def in_int_range_def)
  have r: "Atoi ''2'' = Some 2 \<and> 2 \<notin> row_id ` set (rows (db after_upload))"
    unfolding p by (simp add: remote_eval)
  have l: "\<forall>r \<in> set (rows (ldb after_local_upload)). \<not> atoi_cmp ''2'' (info_id r)"
    unfolding atoi_cmp_def p by (simp add: local_eval)
  have q: "query_err quiet = None" by (simp add: quiet_def)
  note t = C6_not_found [of "''2''" 2 after_upload quiet after_local_upload atoi_cmp
      "''2''" quiet]
  from t [THEN conjunct1, THEN mp, OF r, THEN conjunct1, THEN mp, OF q]
    t [THEN conjunct2, THEN conjunct1, THEN mp, OF l, THEN conjunct1, THEN mp, OF q]
  show ?thesis by (intro conjI)
qed

lemma ext_scan_suffix: "\<exists>p. rev rs @ suffix = p @ ext_scan rs suffix"
proof (induction rs arbitrary: suffix)
  case Nil
  show ?case by simp
next
  case (Cons c rs)
  show ?case
  proof (cases "c = CHR ''/''")
    case True
    then show ?thesis by simp
  next
    case False
    show ?thesis
    proof (cases "c = CHR ''.''")
      case True
      then show ?thesis by simp
    next
      case dot: False
      from Cons.IH [of "c # suffix"] False dot show ?thesis by simp
    qed
  qed
qed

lemma ext_scan_shape:
  "CHR ''/'' \<notin> set suffix \<Longrightarrow> CHR ''.'' \<notin> set suffix \<Longrightarrow>
   (ext_scan rs suffix = [] \<or>
    (\<exists>t. ext_scan rs suffix = CHR ''.'' # t \<and> CHR ''/'' \<notin> set t \<and> CHR ''.'' \<notin> set t))"
  by (induction rs arbitrary: suffix) auto

lemma Ext_suffix: "\<exists>p. path = p @ Ext path"
  using ext_scan_suffix [of "rev path" "[]"] by (simp add: Ext_def)

lemma Ext_shape:
  "Ext path = [] \<or>
   (\<exists>t. Ext path = CHR ''.'' # t \<and> CHR ''/'' \<notin> set t \<and> CHR ''.'' \<notin> set t)"
  using ext_scan_shape [of "[]" "rev path"] by (simp add: Ext_def)

text \<open>
  C7. When \<open>uploadToS3\<close> succeeds, the key of the object is \<open>images/\<close>, the identifier
  drawn for this upload and the extension of the uploaded file's name; the name itself is
  used for nothing else. The extension is a suffix of the name, and is either empty or a
  dot followed by characters other than the dot and the slash. The reference returned is
  the URL made of the bucket and that key, the size returned is the number of bytes of the
  upload, and the bucket holds under that key the uploaded bytes, publicly readable.
\<close>

theorem C7_uploadToS3:
  "fst (uploadToS3 bucket env header w) = Inr (url, sz) \<longrightarrow>
     url = ''https://'' @ bucket @ ''.s3.amazonaws.com/'' @
       ''images/'' @ new_uuid env @ Ext (Filename header) \<and>
     sz = int (length (Content header)) \<and>
     bucket_objects (snd (uploadToS3 bucket env header w))
       (bucket, ''images/'' @ new_uuid env @ Ext (Filename header)) =
       Some \<lparr>Body = Content header, ObjectContentType = ContentType header,
         ACL = ''public-read''\<rparr> \<and>
     (\<exists>p. Filename header = p @ Ext (Filename header)) \<and>
     (Ext (Filename header) = [] \<or>
      (\<exists>t. Ext (Filename header) = CHR ''.'' # t \<and> CHR ''/'' \<notin> set t \<and> CHR ''.'' \<notin> set t))"
proof
  assume a: "fst (uploadToS3 bucket env header w) = Inr (url, sz)"
  from a have u: "url = ''https://'' @ bucket @ ''.s3.amazonaws.com/'' @
       ''images/'' @ new_uuid env @ Ext (Filename header)"
    by (auto simp: uploadToS3_def Let_def object_url_def object_key_def split: option.splits)
  from a have s: "sz = int (length (Content header))"
    by (auto simp: uploadToS3_def Let_def split: option.splits)
  from a have b: "bucket_objects (snd (uploadToS3 bucket env header w))
       (bucket, ''images/'' @ new_uuid env @ Ext (Filename header)) =
       Some \<lparr>Body = Content header, ObjectContentType = ContentType header,
         ACL = ''public-read''\<rparr>"
    by (auto simp: uploadToS3_def Let_def object_key_def split: option.splits)
  from u s b Ext_suffix [of "Filename header"] Ext_shape [of "Filename header"]
  show "url = ''https://'' @ bucket @ ''.s3.amazonaws.com/'' @
       ''images/'' @ new_uuid env @ Ext (Filename header) \<and>
     sz = int (length (Content header)) \<and>
     bucket_objects (snd (uploadToS3 bucket env header w))
       (bucket, ''images/'' @ new_uuid env @ Ext (Filename header)) =
       Some \<lparr>Body = Content header, ObjectContentType = ContentType header,
         ACL = ''public-read''\<rparr> \<and>
     (\<exists>p. Filename header = p @ Ext (Filename header)) \<and>
     (Ext (Filename header) = [] \<or>
      (\<exists>t. Ext (Filename header) = CHR ''.'' # t \<and> CHR ''/'' \<notin> set t \<and> CHR ''.'' \<notin> set t))"
    by (intro conjI)
qed

theorem C7_uploadToS3_witness:
  "fst (uploadToS3 ''b'' quiet cover (empty_world True)) =
     Inr (''https://b.s3.amazonaws.com/images/123e4567-e89b-12d3-a456-426614174000.jpg'', 5) \<and>
   bucket_objects (snd (uploadToS3 ''b'' quiet cover (empty_world True)))
     (''b'', ''images/123e4567-e89b-12d3-a456-426614174000.jpg'') =
     Some \<lparr>Body = ''JFIF!'', ObjectContentType = ''image/jpeg'', ACL = ''public-read''\<rparr>"
proof -
  have a: "fst (uploadToS3 ''b'' quiet cover (empty_world True)) =
     Inr (''https://b.s3.amazonaws.com/images/123e4567-e89b-12d3-a456-426614174000.jpg'', 5)"
    by (simp add: uploadToS3_def quiet_def cover_def object_url_def object_key_def Ext_def
        Let_def)
  have e: "Ext (Filename cover) = ''.jpg''" by (simp add: cover_def Ext_def)
  have c: "new_uuid quiet = ''123e4567-e89b-12d3-a456-426614174000''"
    "Content cover = ''JFIF!''" "ContentType cover = ''image/jpeg''"
    by (simp_all add: quiet_def cover_def)
  from C7_uploadToS3 [of "''b''" quiet cover "empty_world True"
      "''https://b.s3.amazonaws.com/images/123e4567-e89b-12d3-a456-426614174000.jpg''" 5,
      THEN mp, OF a] a
  show ?thesis unfolding e c by simp
qed

text \<open>
  C8. When \<open>saveImageLocally\<close> succeeds, the directory \<open>./images\<close> exists, the path
  returned is \<open>filepath.Join\<close> of that directory and the uploaded file's name, and the
  file at that path holds the uploaded bytes. For a name with no directory part the path
  is \<open>images/\<close> followed by the name (\<open>Join\<close> drops the leading \<open>./\<close>). A second
  upload under the same name returns the same path, and the file then holds the bytes of
  the second upload.
\<close>

theorem C8_saveImageLocally:
  "(saveImageLocally env imageFile f = (Inr p, f') \<longrightarrow>
      imageDir \<in> dirs f' \<and> p = Join [imageDir, Filename imageFile] \<and>
      fs_files f' p = Some (Content imageFile) \<and>
      (plain_name (Filename imageFile) \<longrightarrow> p = ''images/'' @ Filename imageFile)) \<and>
   (saveImageLocally env imageFile f = (Inr p, f') \<and>
    saveImageLocally env2 imageFile2 f' = (Inr q, f2) \<and>
    Filename imageFile2 = Filename imageFile \<longrightarrow>
      q = p \<and> fs_files f2 p = Some (Content imageFile2))"
proof (intro conjI impI)
  assume a: "saveImageLocally env imageFile f = (Inr p, f')"
  from a show "imageDir \<in> dirs f'"
    by (auto simp: saveImageLocally_def Let_def write_file_def split: option.splits)
  from a show p: "p = Join [imageDir, Filename imageFile]"
    by (auto simp: saveImageLocally_def Let_def write_file_def split: option.splits)
  from a show "fs_files f' p = Some (Content imageFile)"
    by (auto simp: saveImageLocally_def Let_def write_file_def split: option.splits)
  {
    assume "plain_name (Filename imageFile)"
    then show "p = ''images/'' @ Filename imageFile" unfolding p by (rule Join_plain)
  }
next
  assume a: "saveImageLocally env imageFile f = (Inr p, f') \<and>
    saveImageLocally env2 imageFile2 f' = (Inr q, f2) \<and>
    Filename imageFile2 = Filename imageFile"
  from a have p: "p = Join [imageDir, Filename imageFile]"
    by (auto simp: saveImageLocally_def Let_def write_file_def split: option.splits)
  from a have q: "q = Join [imageDir, Filename imageFile2]"
    by (auto simp: saveImageLocally_def Let_def write_file_def split: option.splits)
  from a have c: "fs_files f2 q = Some (Content imageFile2)"
    by (auto simp: saveImageLocally_def Let_def write_file_def split: option.splits)
  from a p q show "q = p" by simp
  from a p q c show "fs_files f2 p = Some (Content imageFile2)" by simp
qed

theorem C8_saveImageLocally_witness:
  "fst (saveImageLocally quiet cover (fs (empty_local True))) = Inr ''images/cover.jpg'' \<and>
   fst (saveImageLocally quiet (cover\<lparr>Content := ''PNG''\<rparr>)
     (snd (saveImageLocally quiet cover (fs (empty_local True))))) = Inr ''images/cover.jpg'' \<and>
   fs_files (snd (saveImageLocally quiet cover (fs (empty_local True)))) ''images/cover.jpg'' =
     Some ''JFIF!'' \<and>
   fs_files (snd (saveImageLocally quiet (cover\<lparr>Content := ''PNG''\<rparr>)
     (snd (saveImageLocally quiet cover (fs (empty_local True)))))) ''images/cover.jpg'' =
     Some ''PNG''"
proof -
  have pn: "plain_name (Filename cover)" by (simp add: cover_def plain_name_def)
  have m: "mkdir_err quiet = None" "reopen_err quiet = None" "create_err quiet = None"
    "copy_err quiet = None"
    by (simp_all add: quiet_def)
  have fc: "Filename (cover\<lparr>Content := ''PNG''\<rparr>) = Filename cover"
    "Content (cover\<lparr>Content := ''PNG''\<rparr>) = ''PNG''" "Content cover = ''JFIF!''"
    "Filename cover = ''cover.jpg''"
    by (simp_all add: cover_def)
  obtain p f' where a: "saveImageLocally quiet cover (fs (empty_local True)) = (Inr p, f')"
    by (simp add: saveImageLocally_def m Let_def)
  obtain q f2 where b: "saveImageLocally quiet (cover\<lparr>Content := ''PNG''\<rparr>) f' = (Inr q, f2)"
    by (simp add: saveImageLocally_def m Let_def)
  note t = C8_saveImageLocally [of quiet cover "fs (empty_local True)" p f' quiet
      "cover\<lparr>Content := ''PNG''\<rparr>" q f2]
  note u = t [THEN conjunct1, THEN mp, OF a]
  from u [THEN conjunct2, THEN conjunct2, THEN conjunct2, THEN mp, OF pn]
  have p: "p = ''images/cover.jpg''" by (simp add: fc)
  from u [THEN conjunct2, THEN conjunct2, THEN conjunct1]
  have c: "fs_files f' p = Some ''JFIF!''" by (simp add: fc)
  from t [THEN conjunct2, THEN mp] a b fc(1)
  have q: "q = p" and d: "fs_files f2 p = Some ''PNG''"
    by (simp_all add: fc)
  from p q c d show ?thesis unfolding a snd_conv fst_conv b by simp
qed

section \<open>What a lookup reports\<close>

lemma getAlbumByKey_ok_body:
  assumes "status (fst (getAlbumByKey env idStr w)) = StatusOK"
  shows "\<exists>a. body (fst (getAlbumByKey env idStr w)) = rendered (album_json a) \<and>
    ImageSize a = 0"
proof (cases "Atoi idStr")
  case None
  with assms show ?thesis by (simp add: getAlbumByKey_def JSON_def status_defs)
next
  case (Some k)
  obtain res d where s: "select_album (query_err env) k (db w) = (res, d)"
    by (cases "select_album (query_err env) k (db w)")
  show ?thesis
  proof (cases res)
    case ErrNoRows
    with assms Some s show ?thesis by (simp add: getAlbumByKey_def JSON_def status_defs)
  next
    case (ScanError e)
    with assms Some s show ?thesis by (simp add: getAlbumByKey_def JSON_def status_defs)
  next
    case (Scanned r)
    let ?a = "zero_Album\<lparr>ID := row_id r, ImageURL := row_image_url r,
      Artist := row_artist r, Title := row_title r, Year := row_year r\<rparr>"
    from Some s Scanned have "getAlbumByKey env idStr w =
        (JSON StatusOK (album_json ?a), w\<lparr>db := d\<rparr>)"
      by (simp add: getAlbumByKey_def Let_def)
    then have "body (fst (getAlbumByKey env idStr w)) = rendered (album_json ?a)"
      by (simp add: JSON_def)
    moreover have "ImageSize ?a = 0" by (simp add: zero_Album_def)
    ultimately show ?thesis by blast
  qed
qed

text \<open>
  C9. Every lookup of the remote variant that is answered with 200 carries the member
  \<open>imageSize\<close> with the value 0: the handler fills the other five fields of a zero
  \<open>Album\<close> from the row and never this one. The size that the upload reported is in no
  column of the table.
\<close>

theorem C9_imageSize_always_zero:
  assumes "status (fst (getAlbumByKey env idStr w)) = StatusOK"
  shows "member (body (fst (getAlbumByKey env idStr w))) ''imageSize'' = Some (JNumber 0)"
proof -
  from getAlbumByKey_ok_body [OF assms] obtain a where
    "body (fst (getAlbumByKey env idStr w)) = rendered (album_json a)" and "ImageSize a = 0"
    by blast
  then show ?thesis by (simp add: member_def album_json_def)
qed

theorem C9_imageSize_always_zero_witness:
  "status (fst (getAlbumByKey quiet ''1'' after_upload)) = StatusOK \<and>
   member (body (fst (getAlbumByKey quiet ''1'' after_upload))) ''imageSize'' =
     Some (JNumber 0) \<and>
   member (body (fst (newAlbum ''b'' quiet profile_request (empty_world True))))
     ''imageSize'' = Some (JNumber 5)"
proof -
  have h: "status (fst (getAlbumByKey quiet ''1'' after_upload)) = StatusOK"
    by (simp add: remote_eval)
  have c: "member (body (fst (newAlbum ''b'' quiet profile_request (empty_world True))))
     ''imageSize'' = Some (JNumber 5)"
    by (simp add: remote_eval)
  from h C9_imageSize_always_zero [OF h] c show ?thesis by (intro conjI)
qed

lemma postAlbums_rows:
  "rows (ldb (snd (postAlbums env req w))) = rows (ldb w) \<or>
   (\<exists>k path doc. Marshal \<lparr>md_Artist = PostForm req ''artist'',
        md_Title = PostForm req ''title'', md_Year = PostForm req ''year''\<rparr> = Inr doc \<and>
      rows (ldb (snd (postAlbums env req w))) =
        rows (ldb w) @ [\<lparr>info_id = k, info_image_url = path, info_metadata = doc\<rparr>])"
  by (auto simp: postAlbums_def insert_info_def Let_def
      split: option.splits prod.splits sum.splits if_splits)

lemma getAlbum_rows: "rows (ldb (snd (getAlbum cmp env albumID w))) = rows (ldb w)"
  by (auto simp: getAlbum_def select_info_def Let_def
      split: option.splits scan.splits sum.splits)

lemma columns_decode_postAlbums:
  assumes "columns_decode (ldb w)"
  shows "columns_decode (ldb (snd (postAlbums env req w)))"
proof -
  from postAlbums_rows [of env req w] show ?thesis
  proof
    assume "rows (ldb (snd (postAlbums env req w))) = rows (ldb w)"
    with assms show ?thesis by (simp add: columns_decode_def)
  next
    assume "\<exists>k path doc. Marshal \<lparr>md_Artist = PostForm req ''artist'',
        md_Title = PostForm req ''title'', md_Year = PostForm req ''year''\<rparr> = Inr doc \<and>
      rows (ldb (snd (postAlbums env req w))) =
        rows (ldb w) @ [\<lparr>info_id = k, info_image_url = path, info_metadata = doc\<rparr>]"
    then obtain k path doc where
      m: "Marshal \<lparr>md_Artist = PostForm req ''artist'',
        md_Title = PostForm req ''title'', md_Year = PostForm req ''year''\<rparr> = Inr doc"
      and r: "rows (ldb (snd (postAlbums env req w))) =
        rows (ldb w) @ [\<lparr>info_id = k, info_image_url = path, info_metadata = doc\<rparr>]"
      by blast
    from Unmarshal_Marshal [OF m, of zero_AlbumMetadata] assms r show ?thesis
      by (simp add: columns_decode_def)
  qed
qed

lemma columns_decode_status:
  assumes "columns_decode (ldb w)" "query_err env = None"
  shows "status (fst (getAlbum cmp env albumID w)) = StatusOK \<or>
         status (fst (getAlbum cmp env albumID w)) = StatusNotFound"
proof (cases "find (\<lambda>r. cmp albumID (info_id r)) (rows (ldb w))")
  case None
  with assms show ?thesis by (simp add: getAlbum_def select_info_def Let_def JSON_def)
next
  case (Some r)
  then have "r \<in> set (rows (ldb w))" by (auto simp: find_Some_iff)
  with assms(1) have "case Unmarshal (info_metadata r) zero_AlbumMetadata of
      Inl e \<Rightarrow> False | Inr md \<Rightarrow> True"
    by (simp add: columns_decode_def list_all_iff)
  then obtain md where "Unmarshal (info_metadata r) zero_AlbumMetadata = Inr md"
    by (cases "Unmarshal (info_metadata r) zero_AlbumMetadata") simp_all
  with Some assms(2) show ?thesis
    by (simp add: getAlbum_def select_info_def Let_def JSON_def)
qed

text \<open>
  C10. The metadata column that an accepted upload writes decodes: \<open>Unmarshal\<close> of it
  succeeds, with the three values of the form (an invalid byte replaced by the replacement
  character). Hence the property that every metadata column decodes holds of the empty
  table and is kept by both handlers, and under it a lookup that the database answers ends
  with 200 or 404, never in the branch of the decoding failure.
\<close>

theorem C10_metadata_always_decodes:
  "(status (fst (postAlbums env req w)) = StatusOK \<longrightarrow>
      (\<exists>row. rows (ldb (snd (postAlbums env req w))) = rows (ldb w) @ [row] \<and>
         Unmarshal (info_metadata row) zero_AlbumMetadata =
           Inr (coerce_metadata \<lparr>md_Artist = PostForm req ''artist'',
             md_Title = PostForm req ''title'', md_Year = PostForm req ''year''\<rparr>))) \<and>
   columns_decode (ldb (empty_local strict)) \<and>
   (columns_decode (ldb w) \<longrightarrow>
      columns_decode (ldb (snd (postAlbums env req w))) \<and>
      columns_decode (ldb (snd (getAlbum cmp env' albumID w))) \<and>
      (query_err env' = None \<longrightarrow>
         status (fst (getAlbum cmp env' albumID w)) = StatusOK \<or>
         status (fst (getAlbum cmp env' albumID w)) = StatusNotFound))"
proof (intro conjI impI)
  assume st: "status (fst (postAlbums env req w)) = StatusOK"
  from st obtain imageFile imagePath f doc k d where
    "FormFile req ''image'' = Some imageFile"
    and m: "Marshal \<lparr>md_Artist = PostForm req ''artist'', md_Title = PostForm req ''title'',
       md_Year = PostForm req ''year''\<rparr> = Inr doc"
    and ins: "insert_info (exec_err env) imagePath doc (ldb w) = (Inr k, d)"
    and res: "postAlbums env req w =
       (JSON StatusOK (JObject [(''albumID'', JNumber k), (''imagePath'', JString imagePath)]),
        w\<lparr>fs := f, ldb := d\<rparr>)"
    by (rule postAlbums_ok)
  from insert_info_Inr(3) [OF ins] Unmarshal_Marshal [OF m, of zero_AlbumMetadata]
  show "\<exists>row. rows (ldb (snd (postAlbums env req w))) = rows (ldb w) @ [row] \<and>
         Unmarshal (info_metadata row) zero_AlbumMetadata =
           Inr (coerce_metadata \<lparr>md_Artist = PostForm req ''artist'',
             md_Title = PostForm req ''title'', md_Year = PostForm req ''year''\<rparr>)"
    unfolding res by auto
next
  show "columns_decode (ldb (empty_local strict))"
    by (simp add: columns_decode_def empty_local_def empty_db_def)
next
  assume c: "columns_decode (ldb w)"
  then show "columns_decode (ldb (snd (postAlbums env req w)))"
    by (rule columns_decode_postAlbums)
  from c show "columns_decode (ldb (snd (getAlbum cmp env' albumID w)))"
    by (simp add: columns_decode_def getAlbum_rows)
  {
    assume "query_err env' = None"
    with c show "status (fst (getAlbum cmp env' albumID w)) = StatusOK \<or>
         status (fst (getAlbum cmp env' albumID w)) = StatusNotFound"
      by (rule columns_decode_status)
  }
qed

theorem C10_metadata_always_decodes_witness:
  "columns_decode (ldb after_local_upload) \<and>
   status (fst (getAlbum atoi_cmp quiet ''1'' after_local_upload)) = StatusOK \<and>
   (\<exists>row. rows (ldb after_local_upload) = [row] \<and>
      Unmarshal (info_metadata row) zero_AlbumMetadata =
        Inr \<lparr>md_Artist = ''Boards'', md_Title = ''Music Has...'', md_Year = ''1998''\<rparr>)"
proof -
  note t = C10_metadata_always_decodes [of quiet plain_request "empty_local True" True
      atoi_cmp quiet "''1''"]
  have v: "PostForm plain_request ''artist'' = ''Boards''"
    "PostForm plain_request ''title'' = ''Music Has...''"
    "PostForm plain_request ''year'' = ''1998''"
    by (simp_all add: plain_request_def PostForm_def)
  have c: "coerce_metadata \<lparr>md_Artist = ''Boards'', md_Title = ''Music Has...'',
       md_Year = ''1998''\<rparr> =
     \<lparr>md_Artist = ''Boards'', md_Title = ''Music Has...'', md_Year = ''1998''\<rparr>"
    by (rule coerce_metadata_valid) (simp_all only: AlbumMetadata.simps valid_ascii)
  have e: "rows (ldb (empty_local True)) = []"
    by (simp add: empty_local_def empty_db_def)
  from t [THEN conjunct1, THEN mp, OF local_upload_ok]
  have a: "\<exists>row. rows (ldb after_local_upload) = [row] \<and>
      Unmarshal (info_metadata row) zero_AlbumMetadata =
        Inr \<lparr>md_Artist = ''Boards'', md_Title = ''Music Has...'', md_Year = ''1998''\<rparr>"
    unfolding v c e after_local_upload_def by simp
  from t [THEN conjunct2, THEN conjunct2, THEN mp, OF t [THEN conjunct2, THEN conjunct1]]
  have b: "columns_decode (ldb after_local_upload)"
    unfolding after_local_upload_def by (rule conjunct1)
  have q: "query_err quiet = None" by (simp add: quiet_def)
  have nf: "status (fst (getAlbum atoi_cmp quiet ''1'' after_local_upload)) \<noteq> StatusNotFound"
  proof -
    have k: "keys_ok info_id (ldb (empty_local True))"
      by (simp add: keys_ok_empty empty_local_def)
    have b1: "body (fst (postAlbums quiet plain_request (empty_local True))) =
       JObject [(''albumID'', JNumber 1), (''imagePath'', JString ''images/cover.jpg'')]"
      by (simp add: local_eval ascii_eval)
    from local_round_trip [OF k decimal_cmp_atoi local_upload_ok q]
    obtain j path where
      j: "body (fst (postAlbums quiet plain_request (empty_local True))) =
         JObject [(''albumID'', JNumber j), (''imagePath'', JString path)]"
      and g: "status (fst (getAlbum atoi_cmp quiet (Itoa j)
          (snd (postAlbums quiet plain_request (empty_local True))))) = StatusOK"
      by (auto simp: JSON_def)
    from j b1 have "j = 1" by simp
    with g show ?thesis by (simp add: Itoa_1 after_local_upload_def status_defs)
  qed
  have d: "status (fst (getAlbum atoi_cmp quiet ''1'' after_local_upload)) = StatusOK"
  proof -
    have "columns_decode (ldb after_local_upload) \<longrightarrow>
      columns_decode (ldb (snd (postAlbums quiet plain_request after_local_upload))) \<and>
      columns_decode (ldb (snd (getAlbum atoi_cmp quiet ''1'' after_local_upload))) \<and>
      (query_err quiet = None \<longrightarrow>
         status (fst (getAlbum atoi_cmp quiet ''1'' after_local_upload)) = StatusOK \<or>
         status (fst (getAlbum atoi_cmp quiet ''1'' after_local_upload)) = StatusNotFound)"
      by (rule C10_metadata_always_decodes [of quiet plain_request after_local_upload True
          atoi_cmp quiet "''1''", THEN conjunct2, THEN conjunct2])
    with b q nf show ?thesis by blast
  qed
  from a b d show ?thesis by (intro conjI)
qed

end
